theory Spec2Isabelle
  imports Complex_Main "HOL-Library.Product_Lexorder"
begin

section \<open>Errors and numeric conventions\<close>

text \<open>
  The package computes with NumPy arrays of double-precision numbers.  Intensities,
  coordinates and distances are modelled as exact reals; the exceptions a call can raise
  are values of the type below, and a function that can raise returns \<open>error + 'a\<close>.
\<close>

datatype error =
  ValueError | IndexError | OverflowError | LinAlgError | UnboundLocalError | AttributeError
  | FitError

text \<open>Sequencing: the first exception raised ends the computation.\<close>

definition ebind :: "error + 'a \<Rightarrow> ('a \<Rightarrow> error + 'b) \<Rightarrow> error + 'b" where
  "ebind m f = (case m of Inl e \<Rightarrow> Inl e | Inr x \<Rightarrow> f x)"

fun emap :: "('a \<Rightarrow> error + 'b) \<Rightarrow> 'a list \<Rightarrow> error + 'b list" where
  "emap f [] = Inr []"
| "emap f (x # xs) = ebind (f x) (\<lambda>y. ebind (emap f xs) (\<lambda>ys. Inr (y # ys)))"

text \<open>A \<open>for\<close> loop over a list that threads the loop's variables through its body.\<close>

fun efold :: "('a \<Rightarrow> 's \<Rightarrow> error + 's) \<Rightarrow> 'a list \<Rightarrow> 's \<Rightarrow> error + 's" where
  "efold f [] s = Inr s"
| "efold f (x # xs) s = ebind (f x s) (efold f xs)"

text \<open>
  Indexing an axis of length \<open>n\<close> with a Python integer: a negative index counts from the
  end.
\<close>

definition norm_index :: "nat \<Rightarrow> int \<Rightarrow> error + nat" where
  "norm_index n i =
     (if 0 \<le> i \<and> i < int n then Inr (nat i)
      else if - int n \<le> i \<and> i < 0 then Inr (nat (int n + i))
      else Inl IndexError)"

definition py_get :: "'a list \<Rightarrow> int \<Rightarrow> error + 'a" where
  "py_get xs i = ebind (norm_index (length xs) i) (\<lambda>k. Inr (xs ! k))"

definition nth_e :: "'a list \<Rightarrow> nat \<Rightarrow> error + 'a" where
  "nth_e xs i = (if i < length xs then Inr (xs ! i) else Inl IndexError)"

text \<open>Indexing with an array of non-negative indices, \<open>a[idx]\<close>.\<close>

fun take_all :: "'a list \<Rightarrow> nat list \<Rightarrow> error + 'a list" where
  "take_all xs [] = Inr []"
| "take_all xs (i # is) =
     (if i < length xs
      then (case take_all xs is of Inl e \<Rightarrow> Inl e | Inr ys \<Rightarrow> Inr (xs ! i # ys))
      else Inl IndexError)"

text \<open>Indexing with a boolean array, \<open>a[mask]\<close>: the lengths must agree.\<close>

definition mask_select :: "bool list \<Rightarrow> 'a list \<Rightarrow> error + 'a list" where
  "mask_select m xs =
     (if length m = length xs then Inr (map snd (filter fst (zip m xs))) else Inl IndexError)"

text \<open>\<open>int(x)\<close> of a finite float truncates towards zero.\<close>

definition py_int :: "real \<Rightarrow> int" where
  "py_int x = (if 0 \<le> x then \<lfloor>x\<rfloor> else \<lceil>x\<rceil>)"

text \<open>\<open>np.argmin\<close> of a one-dimensional array: the first position of the minimum.\<close>

fun argmin_from :: "nat \<Rightarrow> real \<Rightarrow> nat \<Rightarrow> real list \<Rightarrow> nat" where
  "argmin_from bi bv i [] = bi"
| "argmin_from bi bv i (x # xs) =
     (if x < bv then argmin_from i x (Suc i) xs else argmin_from bi bv (Suc i) xs)"

definition argmin :: "real list \<Rightarrow> error + nat" where
  "argmin xs = (case xs of [] \<Rightarrow> Inl ValueError | x # r \<Rightarrow> Inr (argmin_from 0 x 1 r))"

text \<open>
  \<open>np.argsort\<close>: the positions of an array in ascending order of their values.  Ties are
  kept in their original order (a stable sort).
\<close>

definition argsort :: "real list \<Rightarrow> nat list" where
  "argsort xs = sort_key (\<lambda>i. xs ! i) [0..<length xs]"

text \<open>Elementwise subtraction of one-dimensional arrays, with NumPy's broadcasting.\<close>

definition np_sub :: "real list \<Rightarrow> real list \<Rightarrow> error + real list" where
  "np_sub xs ys =
     (if length xs = length ys then Inr (map2 (-) xs ys)
      else if length xs = 1 then Inr (map (\<lambda>y. hd xs - y) ys)
      else if length ys = 1 then Inr (map (\<lambda>x. x - hd ys) xs)
      else Inl ValueError)"

section \<open>Spectrum\<close>

record spectrum =
  spec :: "real list"
  ws :: "real list"

text \<open>
  Spectrum objects are mutable and are handed around by reference.  The store is the
  list of all objects allocated so far; a reference is a position in it, and creating an
  object appends to it.
\<close>

type_synonym store = "spectrum list"

definition update_spectrum :: "store \<Rightarrow> nat \<Rightarrow> real list \<Rightarrow> real list \<Rightarrow> bool \<Rightarrow> nat \<times> store" where
  "update_spectrum h self nspec nws inplace =
     (if inplace then (self, h[self := \<lparr>spec = nspec, ws = nws\<rparr>])
      else (length h, h @ [\<lparr>spec = nspec, ws = nws\<rparr>]))"

definition normalization_values :: "real list \<Rightarrow> error + real list" where
  "normalization_values s =
     (if s = [] then Inl ValueError
      else let mn = Min (set s); mx = Max (set s)
           in Inr (map (\<lambda>x. (x - mn) / (mx - mn + 1 / 100000)) s))"

definition normalization :: "store \<Rightarrow> nat \<Rightarrow> bool \<Rightarrow> error + nat \<times> store" where
  "normalization h self inplace =
     ebind (normalization_values (spec (h ! self)))
       (\<lambda>nspec. Inr (update_spectrum h self nspec (ws (h ! self)) inplace))"

text \<open>
  \<open>smooth\<close> takes the Gaussian filter as a parameter.  Its call of \<open>_update_spectrum\<close>
  passes no \<open>inplace\<close> argument, so the default \<open>True\<close> of that method applies.
\<close>

definition smooth ::
  "(real \<Rightarrow> real list \<Rightarrow> real list) \<Rightarrow> store \<Rightarrow> nat \<Rightarrow> real \<Rightarrow> bool \<Rightarrow> nat \<times> store" where
  "smooth gaussian_filter1d h self sigma inplace =
     update_spectrum h self (gaussian_filter1d sigma (spec (h ! self))) (ws (h ! self)) True"

definition clip :: "store \<Rightarrow> nat \<Rightarrow> real \<Rightarrow> real \<Rightarrow> bool \<Rightarrow> nat \<times> store" where
  "clip h self clip_min clip_max inplace =
     update_spectrum h self (map (\<lambda>x. min (max x clip_min) clip_max) (spec (h ! self)))
       (ws (h ! self)) inplace"

text \<open>The \<open>n\<close> first and \<open>n\<close> last entries (or the first and the last one) of an array.\<close>

definition baseline_points :: "int \<Rightarrow> 'a list \<Rightarrow> error + 'a list" where
  "baseline_points n xs =
     (if 1 < n then Inr (take (nat n) xs @ drop (length xs - nat n) xs)
      else if xs = [] then Inl IndexError
      else Inr [hd xs, last xs])"

text \<open>
  The matrix \<open>X.T @ X\<close> of the baseline system, for the design matrix with the rows
  \<open>(x, 1)\<close>, as \<open>((a, b), (c, d))\<close>.
\<close>

definition normal_matrix :: "real list \<Rightarrow> real \<times> real \<times> real \<times> real" where
  "normal_matrix X = (sum_list (map (\<lambda>x. x * x) X), sum_list X, sum_list X, real (length X))"

text \<open>
  \<open>remove_background\<close> takes the matrix inversion \<open>np.linalg.inv\<close> as a parameter: the
  routine returns the inverse or raises.  When it raises \<open>LinAlgError\<close> is decided by the
  pivots of its factorisation in floating point, not by the determinant, so no
  determinant test stands in for it here.
\<close>

definition remove_background_values ::
  "(real \<times> real \<times> real \<times> real \<Rightarrow> error + real \<times> real \<times> real \<times> real)
     \<Rightarrow> real list \<Rightarrow> real list \<Rightarrow> int \<Rightarrow> error + real list" where
  "remove_background_values linalg_inv s w n =
     ebind (baseline_points n w) (\<lambda>X.
     ebind (baseline_points n s) (\<lambda>Y.
     ebind (linalg_inv (normal_matrix X))
       (\<lambda>(p, q, r, t).
          if length X \<noteq> length Y then Inl ValueError
          else let xy = sum_list (map2 (*) X Y); y = sum_list Y;
                   a = p * xy + q * y; b = r * xy + t * y
               in np_sub s (map (\<lambda>x. x * a + b) w))))"

definition remove_background ::
  "(real \<times> real \<times> real \<times> real \<Rightarrow> error + real \<times> real \<times> real \<times> real)
     \<Rightarrow> store \<Rightarrow> nat \<Rightarrow> int \<Rightarrow> bool \<Rightarrow> error + nat \<times> store" where
  "remove_background linalg_inv h self n inplace =
     ebind (remove_background_values linalg_inv (spec (h ! self)) (ws (h ! self)) n)
       (\<lambda>nspec. Inr (update_spectrum h self nspec (ws (h ! self)) inplace))"

text \<open>\<open>filling_flat\<close> takes the quadratic interpolation (fit and evaluation) as a parameter.\<close>

definition filling_flat ::
  "(real list \<Rightarrow> real list \<Rightarrow> real list \<Rightarrow> error + real list)
     \<Rightarrow> store \<Rightarrow> nat \<Rightarrow> real \<Rightarrow> bool \<Rightarrow> error + nat \<times> store" where
  "filling_flat interp1d h self trunc inplace =
     (let w = ws (h ! self); s = spec (h ! self);
          smask = map (\<lambda>x. x \<le> trunc) s; k = length (filter id smask)
      in ebind (if k < length s \<and> 2 < k
                then ebind (mask_select smask w) (\<lambda>wm.
                     ebind (mask_select smask s) (\<lambda>sm. interp1d wm sm w))
                else Inr s)
           (\<lambda>s'. Inr (if inplace then (self, h[self := (h ! self)\<lparr>spec := s'\<rparr>])
                       else (length h, h @ [\<lparr>spec = s', ws = w\<rparr>]))))"

section \<open>Peak Distance Engine\<close>

text \<open>
  \<open>get_peaks_distance\<close> returns the condensed vector of the distances below the diagonal,
  or the full matrix; the \<open>peaks\<close> argument of the source is not used by it.
\<close>

datatype interdist = Condensed "real list" | Full "real list list"

definition distance_matrix :: "real list \<Rightarrow> real list \<Rightarrow> real list list" where
  "distance_matrix xs ys = map (\<lambda>x. map (\<lambda>y. \<bar>x - y\<bar>) ys) xs"

text \<open>\<open>m[np.tril_indices_from(m)] = -m[np.tril_indices_from(m)]\<close>, diagonal included.\<close>

definition negate_tril :: "real list list \<Rightarrow> real list list" where
  "negate_tril m =
     map (\<lambda>(i, row). map (\<lambda>(j, x). if j \<le> i then - x else x) (enumerate 0 row)) (enumerate 0 m)"

definition get_peaks_distance :: "real list \<Rightarrow> bool \<Rightarrow> bool \<Rightarrow> interdist" where
  "get_peaks_distance peaks_w full polar =
     (if \<not> full
      then Condensed (concat (map (\<lambda>i. map (\<lambda>j. \<bar>peaks_w ! i - peaks_w ! j\<bar>) [0..<i])
                                  [0..<length peaks_w]))
      else let interdist = distance_matrix peaks_w peaks_w
           in Full (if polar then negate_tril interdist else interdist))"

definition matrix_of :: "interdist \<Rightarrow> error + real list list" where
  "matrix_of d = (case d of Full m \<Rightarrow> Inr m | Condensed v \<Rightarrow> Inl IndexError)"

text \<open>
  \<open>int(a // d)\<close> on NumPy floats: the floor of the quotient; dividing by zero gives
  \<open>nan\<close> or an infinity, which \<open>int\<close> refuses.
\<close>

definition floor_div :: "real \<Rightarrow> real \<Rightarrow> error + int" where
  "floor_div a d =
     (if d = 0 then (if a = 0 then Inl ValueError else Inl OverflowError) else Inr \<lfloor>a / d\<rfloor>)"

definition create_grid :: "real \<Rightarrow> real \<Rightarrow> real \<Rightarrow> real \<Rightarrow> error + real list" where
  "create_grid start_w end_w center dst =
     ebind (floor_div (end_w - center) dst) (\<lambda>rn.
     ebind (floor_div (start_w - center) dst) (\<lambda>ln.
       Inr (map (\<lambda>k. real_of_int k * dst) [ln + 1..rn])))"

definition get_center_peak_idxs :: "real list \<Rightarrow> real \<Rightarrow> real \<Rightarrow> nat list" where
  "get_center_peak_idxs peaks spec_center_loc tolerant =
     filter (\<lambda>i. \<bar>peaks ! i - spec_center_loc\<bar> < tolerant) [0..<length peaks]"

definition get_center_peak_idx :: "real list \<Rightarrow> real \<Rightarrow> real \<Rightarrow> error + int" where
  "get_center_peak_idx peaks spec_center_loc tolerant =
     ebind (argmin (map (\<lambda>p. \<bar>p - spec_center_loc\<bar>) peaks)) (\<lambda>ci.
       Inr (if peaks ! ci - spec_center_loc < tolerant then int ci else - 1))"

text \<open>
  The generator \<open>get_all_nbr_idxs\<close>, as the list of the indices it yields.  The loop runs
  until both ends have been passed.
\<close>

function nbr_loop :: "int \<Rightarrow> int \<Rightarrow> int \<Rightarrow> bool \<Rightarrow> bool \<Rightarrow> int list" where
  "nbr_loop center_i maxidx level endleft endright =
     (if endleft \<and> endright then []
      else (if 0 \<le> center_i - (level + 1) then [center_i - (level + 1)] else [])
         @ (if center_i + (level + 1) \<le> maxidx then [center_i + (level + 1)] else [])
         @ nbr_loop center_i maxidx (level + 1)
             (endleft \<or> \<not> 0 \<le> center_i - (level + 1))
             (endright \<or> \<not> center_i + (level + 1) \<le> maxidx))"
  by pat_completeness auto
termination
  by (relation "measure (\<lambda>(c, m, l, el, er).
        3 * nat (max c (m - c) + 1 - l) + (if el then 0 else 1) + (if er then 0 else 1))")
     (auto split: if_splits)

definition get_all_nbr_idxs :: "int \<Rightarrow> int list \<Rightarrow> error + int list" where
  "get_all_nbr_idxs center_i idxs =
     (if idxs = [] then Inl ValueError
      else Inr (nbr_loop center_i (Max (set idxs)) 0 False False))"

text \<open>
  A family's spacing is a float; \<open>get_peaks_group\<close> compares it with \<open>np.inf\<close>, so the
  type has the infinity beside the finite values.
\<close>

datatype xreal = Fin real | PInf

record peak_analysis_result =
  peaks_family :: "nat list"
  avg_dist :: xreal
  avg_err :: real

text \<open>
  Matching the peaks against a grid: for every peak the nearest grid line (\<open>close\<close>) and
  its distance to it; the result is \<open>idx\<close>, the peaks that are near enough, and \<open>gidx\<close>,
  the grid lines they hit.
\<close>

definition match_grid :: "real list \<Rightarrow> real list \<Rightarrow> real \<Rightarrow> error + nat list \<times> nat list" where
  "match_grid center_nbr_dists grid tol =
     (if grid = [] then Inl ValueError
      else let nbr_grid_dm = distance_matrix center_nbr_dists grid
           in ebind (emap argmin nbr_grid_dm) (\<lambda>close.
                let match_error = map2 (\<lambda>row c. row ! c) nbr_grid_dm close;
                    select = map (\<lambda>e. \<bar>e\<bar> < tol) match_error
                in ebind (mask_select select [0..<length center_nbr_dists]) (\<lambda>idx.
                   ebind (mask_select select close) (\<lambda>gidx. Inr (idx, gidx)))))"

definition uni_gidx :: "nat list \<Rightarrow> nat list" where
  "uni_gidx gidx = sort (remdups gidx)"

definition continuity :: "nat list \<Rightarrow> int list" where
  "continuity u = map2 (\<lambda>a b. int b - int a) u (tl u)"

definition accepted :: "int \<Rightarrow> nat list \<Rightarrow> bool" where
  "accepted allow_discontinue gidx =
     ((\<forall>c \<in> set (continuity (uni_gidx gidx)). c \<le> allow_discontinue + 1)
      \<and> 1 < length (uni_gidx gidx))"

definition family :: "real list \<Rightarrow> real list \<Rightarrow> real \<Rightarrow> nat list \<Rightarrow> nat list \<Rightarrow> peak_analysis_result" where
  "family center_nbr_dists grid dst idx gidx =
     (let selected_multi = map (\<lambda>g. grid ! g / dst) gidx;
          ratios = map (\<lambda>(i, m). center_nbr_dists ! i / m)
                     (filter (\<lambda>(i, m). m \<noteq> 0) (zip idx selected_multi));
          cnt = real (length ratios);
          ad = sum_list ratios / cnt;
          ae = sum_list (map (\<lambda>r. \<bar>r - ad\<bar>) ratios) / cnt
      in \<lparr>peaks_family = idx, avg_dist = Fin ad, avg_err = ae\<rparr>)"

text \<open>
  The body of the loop over the neighbours \<open>j\<close> of the centre peak.  The loop's variables
  are \<open>processed\<close> (the array \<open>mask\<close> of the source, as the set of the pairs of peaks
  that are marked) and \<open>out\<close>.
\<close>

definition nbr_step ::
  "nat \<Rightarrow> real list \<Rightarrow> real \<Rightarrow> int \<Rightarrow> real \<Rightarrow> real \<Rightarrow> real \<Rightarrow> real \<Rightarrow> int \<Rightarrow> int
     \<Rightarrow> (nat \<times> nat) set \<times> peak_analysis_result list
     \<Rightarrow> error + (nat \<times> nat) set \<times> peak_analysis_result list" where
  "nbr_step n center_nbr_dists cp ci grid_min_w grid_max_w tolerant abs_tolerant
      allow_discontinue j st =
     (case st of (processed, out) \<Rightarrow>
        if ci = j then Inr (processed, out)
        else ebind (norm_index n ci) (\<lambda>ci'.
             ebind (norm_index n j) (\<lambda>j'.
               if (ci', j') \<in> processed then Inr (processed, out)
               else ebind (py_get center_nbr_dists j) (\<lambda>d.
                      let dst = \<bar>d\<bar>
                      in if dst \<le> abs_tolerant then Inr (processed, out)
                         else ebind (create_grid grid_min_w grid_max_w cp dst) (\<lambda>grid.
                              ebind (match_grid center_nbr_dists grid
                                       (min (tolerant * dst) abs_tolerant)) (\<lambda>(idx, gidx).
                                if accepted allow_discontinue gidx
                                then (if \<exists>i \<in> set idx. n \<le> i then Inl IndexError
                                      else Inr (processed \<union> set idx \<times> set idx,
                                                out @ [family center_nbr_dists grid dst idx gidx]))
                                else Inr (processed, out)))))))"

definition analyze_peaks_distance_cent ::
  "nat list \<Rightarrow> real list \<Rightarrow> real \<Rightarrow> int \<Rightarrow> real \<Rightarrow> real \<Rightarrow> real \<Rightarrow> real \<Rightarrow> int
     \<Rightarrow> error + peak_analysis_result list" where
  "analyze_peaks_distance_cent peaks center_nbr_dists center_peak center_peak_i
      grid_min_w grid_max_w tolerant abs_tolerant allow_discontinue =
     ebind (get_all_nbr_idxs center_peak_i (map int [0..<length peaks])) (\<lambda>js.
     ebind (efold (nbr_step (length peaks) center_nbr_dists center_peak center_peak_i
                     grid_min_w grid_max_w tolerant abs_tolerant allow_discontinue)
              js ({}, [])) (\<lambda>(processed, out). Inr out))"

text \<open>
  The method \<open>Spectrum.analyze_peaks_distance_cent\<close>; \<open>peaks\<close> is the attribute set by the
  peak finder.  \<open>spectrum_interdist\<close> is the matrix whose centre row the method hands on.
\<close>

definition spectrum_interdist :: "spectrum \<Rightarrow> nat list \<Rightarrow> error + real list list" where
  "spectrum_interdist s peaks =
     ebind (take_all (ws s) peaks) (\<lambda>peaks_w.
     ebind (matrix_of (get_peaks_distance peaks_w True True)) (\<lambda>interdist.
       Inr (negate_tril interdist)))"

definition spectrum_analyze_peaks_distance_cent ::
  "spectrum \<Rightarrow> nat list \<Rightarrow> real \<Rightarrow> real \<Rightarrow> int \<Rightarrow> error + peak_analysis_result list" where
  "spectrum_analyze_peaks_distance_cent s peaks tolerant abs_tolerant allow_discontinue =
     (if ws s = [] then Inl ValueError
      else let grid_max_w = Max (set (ws s)); grid_min_w = 0
           in ebind (spectrum_interdist s peaks) (\<lambda>interdist.
              ebind (get_center_peak_idx (map real peaks) (real (length (ws s) div 2))
                       abs_tolerant) (\<lambda>center_peak_i.
                if center_peak_i = - 1 then Inr []
                else ebind (py_get peaks center_peak_i) (\<lambda>center_peak.
                     ebind (py_get interdist center_peak_i) (\<lambda>center_nbr_dists.
                       analyze_peaks_distance_cent peaks center_nbr_dists (real center_peak)
                         center_peak_i grid_min_w grid_max_w tolerant abs_tolerant
                         allow_discontinue)))))"

section \<open>Peak Group Resolver\<close>

text \<open>The sort key of a spacing: the finite values in their order, then the infinity.\<close>

definition dist_key :: "xreal \<Rightarrow> bool \<times> real" where
  "dist_key d = (case d of Fin x \<Rightarrow> (False, x) | PInf \<Rightarrow> (True, 0))"

text \<open>\<open>selected[family] = True\<close>.\<close>

definition set_all :: "bool list \<Rightarrow> nat list \<Rightarrow> error + bool list" where
  "set_all selected fam =
     (if \<exists>i \<in> set fam. length selected \<le> i then Inl IndexError
      else Inr (fold (\<lambda>i sel. sel[i := True]) fam selected))"

definition group_step ::
  "bool \<Rightarrow> nat list \<times> xreal \<Rightarrow> bool list \<times> (nat list \<times> xreal) list
     \<Rightarrow> error + bool list \<times> (nat list \<times> xreal) list" where
  "group_step exclusive entry st =
     (case entry of (fam, ad) \<Rightarrow> case st of (selected, out) \<Rightarrow>
        if ad \<noteq> PInf
        then ebind (if exclusive
                    then ebind (take_all selected fam) (\<lambda>flags. Inr (\<forall>b \<in> set flags. b = False))
                    else Inr True) (\<lambda>free.
               if free
               then ebind (set_all selected fam) (\<lambda>selected'. Inr (selected', out @ [(fam, ad)]))
               else Inr (selected, out))
        else Inr (selected, out))"

definition get_peaks_group ::
  "peak_analysis_result list \<Rightarrow> nat list \<Rightarrow> bool \<Rightarrow> error + (nat list \<times> xreal) list" where
  "get_peaks_group ana_res peaks exclusive =
     (let allpeaks_unfilterd =
            sort_key (\<lambda>x. dist_key (snd x)) (map (\<lambda>res. (peaks_family res, avg_dist res)) ana_res);
          selected = replicate (length peaks) False
      in ebind (efold (group_step exclusive) allpeaks_unfilterd (selected, [])) (\<lambda>(selected, out).
           Inr (out @ [(filter (\<lambda>i. \<not> selected ! i) [0..<length peaks], Fin (- 1))])))"

text \<open>Groups at different positions of the output have no peak in common.\<close>

definition disjoint_groups :: "(nat list \<times> xreal) list \<Rightarrow> bool" where
  "disjoint_groups out \<longleftrightarrow>
     (\<forall>i j. i < j \<and> j < length out \<longrightarrow> set (fst (out ! i)) \<inter> set (fst (out ! j)) = {})"

section \<open>Cross-Pattern Distance Clusterer\<close>

text \<open>
  The state of a \<open>DBSCANDistanceCluster\<close> after \<open>fit_predict\<close>.  The density clustering
  itself is a parameter: it maps the periodicities to one label each, \<open>-1\<close> for an outlier.
\<close>

record distance_cluster =
  labels :: "int list"
  mean_dists :: "real list"

definition np_mean :: "real list \<Rightarrow> real" where
  "np_mean xs = sum_list xs / real (length xs)"

definition mean_dist :: "int list \<Rightarrow> real list \<Rightarrow> error + real list" where
  "mean_dist lbls dists =
     (if lbls \<noteq> [] \<and> length lbls \<noteq> length dists then Inl IndexError
      else Inr (concat (map (\<lambda>l. (if l = - 1 then [- 1] else [])
                                  @ [np_mean (map snd (filter (\<lambda>(l', d). l' = l) (zip lbls dists)))])
                         (sort (remdups lbls)))))"

definition sort_dists :: "int list \<Rightarrow> real list \<Rightarrow> error + int list \<times> real list" where
  "sort_dists lbls md =
     (let sorted_mean_idx = argsort md;
          mapper = fold (\<lambda>(i, j) m. m[j := int i]) (enumerate 0 sorted_mean_idx)
                     (replicate (length sorted_mean_idx) 0)
      in ebind (emap (py_get mapper) lbls) (\<lambda>lbls'.
           Inr (lbls', map (\<lambda>i. md ! i) sorted_mean_idx)))"

definition fit_predict :: "(real list \<Rightarrow> int list) \<Rightarrow> real list \<Rightarrow> error + distance_cluster" where
  "fit_predict dbscan dists =
     (let lbls = dbscan dists
      in ebind (mean_dist lbls dists) (\<lambda>md.
         ebind (sort_dists lbls md) (\<lambda>(lbls', md').
           Inr \<lparr>labels = lbls', mean_dists = md'\<rparr>)))"

section \<open>Two-dimensional arrays\<close>

text \<open>
  A two-dimensional array is its number of columns and the list of its rows, each of that
  length; the number of columns is kept because an array may have no row.
\<close>

record 'a array2 =
  a_cols :: nat
  a_rows :: "'a list list"

definition nrows :: "'a array2 \<Rightarrow> nat" where
  "nrows a = length (a_rows a)"

definition full :: "nat \<Rightarrow> nat \<Rightarrow> 'a \<Rightarrow> 'a array2" where
  "full r c v = \<lparr>a_cols = c, a_rows = replicate r (replicate c v)\<rparr>"

text \<open>The positions \<open>lo..<hi\<close> that the slice \<open>start:stop\<close> selects on an axis of length \<open>n\<close>.\<close>

definition slice_bounds :: "nat \<Rightarrow> int \<Rightarrow> int \<Rightarrow> nat \<times> nat" where
  "slice_bounds n start stop =
     (let lo = nat (if start < 0 then max 0 (int n + start) else min start (int n));
          hi = nat (if stop < 0 then max 0 (int n + stop) else min stop (int n))
      in (lo, max lo hi))"

definition slice :: "'a list \<Rightarrow> int \<Rightarrow> int \<Rightarrow> 'a list" where
  "slice xs start stop =
     (case slice_bounds (length xs) start stop of (lo, hi) \<Rightarrow> take (hi - lo) (drop lo xs))"

text \<open>\<open>a[r0:r1, c0:c1]\<close>.\<close>

definition sub :: "'a array2 \<Rightarrow> int \<Rightarrow> int \<Rightarrow> int \<Rightarrow> int \<Rightarrow> 'a array2" where
  "sub a r0 r1 c0 c1 =
     \<lparr>a_cols = (case slice_bounds (a_cols a) c0 c1 of (lo, hi) \<Rightarrow> hi - lo),
      a_rows = map (\<lambda>row. slice row c0 c1) (slice (a_rows a) r0 r1)\<rparr>"

text \<open>Broadcasting: two axes agree if they have the same length or one has length one.\<close>

definition bdim :: "nat \<Rightarrow> nat \<Rightarrow> error + nat" where
  "bdim m n = (if m = n then Inr m else if m = 1 then Inr n else if n = 1 then Inr m
               else Inl ValueError)"

definition at2 :: "'a array2 \<Rightarrow> nat \<Rightarrow> nat \<Rightarrow> 'a" where
  "at2 a i j = a_rows a ! (if nrows a = 1 then 0 else i) ! (if a_cols a = 1 then 0 else j)"

definition np_or :: "bool array2 \<Rightarrow> bool array2 \<Rightarrow> error + bool array2" where
  "np_or a b =
     ebind (bdim (nrows a) (nrows b)) (\<lambda>r.
     ebind (bdim (a_cols a) (a_cols b)) (\<lambda>c.
       Inr \<lparr>a_cols = c, a_rows = map (\<lambda>i. map (\<lambda>j. at2 a i j \<or> at2 b i j) [0..<c]) [0..<r]\<rparr>))"

text \<open>\<open>g[r0:r1, c0:c1] = v\<close>; the value has to broadcast to the shape of the slice.\<close>

definition assign_slice ::
  "'a array2 \<Rightarrow> int \<Rightarrow> int \<Rightarrow> int \<Rightarrow> int \<Rightarrow> 'a array2 \<Rightarrow> error + 'a array2" where
  "assign_slice g r0 r1 c0 c1 v =
     (case slice_bounds (nrows g) r0 r1 of (rl, rh) \<Rightarrow>
      case slice_bounds (a_cols g) c0 c1 of (cl, ch) \<Rightarrow>
        if (nrows v = rh - rl \<or> nrows v = 1) \<and> (a_cols v = ch - cl \<or> a_cols v = 1)
        then Inr (g\<lparr>a_rows :=
                     map (\<lambda>i. map (\<lambda>j. if rl \<le> i \<and> i < rh \<and> cl \<le> j \<and> j < ch
                                        then at2 v (i - rl) (j - cl) else a_rows g ! i ! j)
                                 [0..<a_cols g])
                         [0..<nrows g]\<rparr>)
        else Inl ValueError)"

text \<open>\<open>g[r0:r1, c0:c1] = g[r0:r1, c0:c1] | b\<close>.\<close>

definition or_into ::
  "bool array2 \<Rightarrow> int \<Rightarrow> int \<Rightarrow> int \<Rightarrow> int \<Rightarrow> bool array2 \<Rightarrow> error + bool array2" where
  "or_into g r0 r1 c0 c1 b =
     ebind (np_or (sub g r0 r1 c0 c1) b) (\<lambda>v. assign_slice g r0 r1 c0 c1 v)"

text \<open>\<open>np.sum(g * a)\<close> for a boolean \<open>g\<close> of the shape of \<open>a\<close>.\<close>

definition masked_sum :: "bool array2 \<Rightarrow> real array2 \<Rightarrow> real" where
  "masked_sum g a =
     sum_list (map (\<lambda>(grow, arow). sum_list (map2 (\<lambda>b x. if b then x else 0) grow arow))
                 (zip (a_rows g) (a_rows a)))"

section \<open>Segmented pattern\<close>

text \<open>
  A region of the segmentation: its bounding box \<open>(minr, minc, maxr, maxc)\<close> and its pixel
  mask inside the box.
\<close>

record region =
  bbox :: "int \<times> int \<times> int \<times> int"
  image_r :: "bool array2"

text \<open>
  The attributes of a \<open>RheedMask\<close> that the periodicity analysis and the intensity
  attribution read and write; \<open>pattern\<close> is the pattern of its \<open>Rheed\<close> object.
\<close>

record rheed_mask =
  pattern :: "real array2"
  regions :: "region list"
  collapses :: "spectrum list"
  collapses_peaks :: "nat list list"
  collapses_peaks_ws :: "real list list"
  collapses_peaks_regions :: "nat list list"
  collapses_peaks_ws_flatten :: "real list"
  collapses_peaks_flatten :: "nat list"
  collapses_peaks_flatten_pids :: "nat list"
  collapses_peaks_flatten_regions :: "nat list"
  collapses_peaks_flatten_nbr_dist :: "real list"
  collapses_peaks_flatten_ci :: int
  collapses_peaks_flatten_cis :: "nat list"
  collapses_peaks_flatten_ciw :: real
  collapses_peaks_flatten_ana_res :: "peak_analysis_result list"
  cluster_labels :: "int list"
  cluster_labels_unique :: "int list"

datatype warning = LinAlgWarning | GaussianFail nat | RegisterFail nat

text \<open>
  \<open>clean_collapse\<close> on the spectra \<open>cs\<close> of the store.  It calls \<open>cs.remove_background()\<close>,
  \<open>cs.normalize()\<close> and \<open>cs.smooth()\<close>.  The spectrum class that the pattern module imports
  is not among the sources, and the spectrum class that is has no method \<open>normalize\<close> (on
  it the call raises \<open>AttributeError\<close>); so \<open>normalize\<close> is a parameter here: an operation
  that updates the spectrum \<open>cs\<close> of the store in place, or raises.  The other two calls
  are the methods above.
\<close>

definition clean_one ::
  "(real \<times> real \<times> real \<times> real \<Rightarrow> error + real \<times> real \<times> real \<times> real)
     \<Rightarrow> (store \<Rightarrow> nat \<Rightarrow> error + store)
     \<Rightarrow> (real \<Rightarrow> real list \<Rightarrow> real list) \<Rightarrow> bool \<Rightarrow> bool \<Rightarrow> bool \<Rightarrow> nat
     \<Rightarrow> store \<times> warning list \<Rightarrow> error + store \<times> warning list" where
  "clean_one linalg_inv cs_normalize gaussian_filter1d rm_bg scale do_smooth cs st =
     (case st of (h, warns) \<Rightarrow>
        ebind (if rm_bg
               then (case remove_background linalg_inv h cs 2 True of
                       Inr (r, h') \<Rightarrow> Inr (h', warns)
                     | Inl e \<Rightarrow> if e = LinAlgError then Inr (h, warns @ [LinAlgWarning]) else Inl e)
               else Inr (h, warns)) (\<lambda>(h1, warns1).
        ebind (if scale then cs_normalize h1 cs else Inr h1) (\<lambda>h2.
          Inr (if do_smooth then snd (smooth gaussian_filter1d h2 cs 1 True) else h2, warns1))))"


definition flatten_peaks :: "rheed_mask \<Rightarrow> error + rheed_mask" where
  "flatten_peaks st =
     (let ws_flat = concat (collapses_peaks_ws st);
          sortidxs = argsort ws_flat
      in ebind (take_all (concat (collapses_peaks st)) sortidxs) (\<lambda>pk.
         ebind (take_all (concat (collapses_peaks_regions st)) sortidxs) (\<lambda>rg.
           Inr (st\<lparr>collapses_peaks_ws_flatten := map (\<lambda>i. ws_flat ! i) sortidxs,
                    collapses_peaks_flatten := pk,
                    collapses_peaks_flatten_pids := sortidxs,
                    collapses_peaks_flatten_regions := rg\<rparr>))))"

text \<open>The matrix whose row \<open>ci\<close> the method \<open>RheedMask.analyze_peaks_distance_cent\<close> hands on.\<close>

definition rheed_interdist :: "real list \<Rightarrow> error + real list list" where
  "rheed_interdist allpeaks = matrix_of (get_peaks_distance allpeaks True True)"

definition rheed_analyze_peaks_distance_cent ::
  "rheed_mask \<Rightarrow> real \<Rightarrow> real \<Rightarrow> int \<Rightarrow> error + rheed_mask" where
  "rheed_analyze_peaks_distance_cent st0 tolerant abs_tolerant allow_discontinue =
     ebind (flatten_peaks st0) (\<lambda>st.
       let allpeaks = collapses_peaks_ws_flatten st;
           mid = real (a_cols (pattern st) div 2)
       in ebind (get_center_peak_idx allpeaks mid abs_tolerant) (\<lambda>ci.
          let cis = get_center_peak_idxs allpeaks mid abs_tolerant
          in ebind (py_get allpeaks ci) (\<lambda>ciw.
             ebind (rheed_interdist allpeaks) (\<lambda>inter_dist.
             ebind (py_get inter_dist ci) (\<lambda>nbr_dist.
             ebind (analyze_peaks_distance_cent (collapses_peaks_flatten st) nbr_dist ciw ci
                      0 (real (a_cols (pattern st))) tolerant abs_tolerant allow_discontinue)
               (\<lambda>ana_res.
                  Inr (st\<lparr>collapses_peaks_flatten_nbr_dist := nbr_dist,
                           collapses_peaks_flatten_ci := ci,
                           collapses_peaks_flatten_cis := cis,
                           collapses_peaks_flatten_ciw := ciw,
                           collapses_peaks_flatten_ana_res := ana_res\<rparr>)))))))"

section \<open>Group Intensity Attributor\<close>

text \<open>
  The mixture fit of one region, cached in \<open>gauss_fit\<close>.  The least-squares fitter is a
  parameter: it gets the coordinates, the intensities and the initial guess, and returns
  the fitted parameters or raises.
\<close>

definition fit_region ::
  "(real list \<Rightarrow> real list \<Rightarrow> real list \<Rightarrow> error + real list) \<Rightarrow> rheed_mask \<Rightarrow> nat
     \<Rightarrow> (nat \<rightharpoonup> real list) \<Rightarrow> warning list
     \<Rightarrow> error + real list \<times> (nat \<rightharpoonup> real list) \<times> warning list" where
  "fit_region curve_fit st rid gauss_fit warns =
     (case gauss_fit rid of
        Some popt \<Rightarrow> Inr (popt, gauss_fit, warns)
      | None \<Rightarrow>
          ebind (nth_e (collapses st) rid) (\<lambda>cs.
          ebind (nth_e (collapses_peaks st) rid) (\<lambda>ps.
          ebind (take_all (ws cs) ps) (\<lambda>xs.
          ebind (take_all (spec cs) ps) (\<lambda>hs.
            if xs = [] then Inl ValueError
            else let width = (Max (set xs) - Min (set xs)) / real (2 * length ps);
                     guess = concat (map (\<lambda>k. [hs ! k, xs ! k, width]) [0..<length xs]) @ [0]
                 in (case curve_fit (ws cs) (spec cs) guess of
                       Inr popt \<Rightarrow> Inr (popt, gauss_fit(rid \<mapsto> popt), warns)
                     | Inl e \<Rightarrow>
                         Inr (guess, gauss_fit(rid \<mapsto> guess), warns @ [GaussianFail rid])))))))"

text \<open>
  The \<open>try\<close> block that registers the sub-window \<open>minc':maxc'\<close> of a region in the
  group's mask: any exception is caught, a warning is emitted and the mask stays as it is.
\<close>

definition carve ::
  "bool array2 \<Rightarrow> region \<Rightarrow> int \<Rightarrow> int \<Rightarrow> int \<Rightarrow> int \<Rightarrow> int \<Rightarrow> nat \<Rightarrow> warning list
     \<Rightarrow> warning list \<times> bool array2" where
  "carve group_mask region minr maxr minc' maxc' old_minc rid warns =
     (case or_into group_mask minr maxr minc' maxc'
             (sub (image_r region) 0 (int (nrows (image_r region)))
                (minc' - old_minc) (maxc' - old_minc)) of
        Inr gm \<Rightarrow> (warns, gm)
      | Inl e \<Rightarrow> (warns @ [RegisterFail rid], group_mask))"

text \<open>The body of the loop over the peaks \<open>p\<close> of a family.\<close>

definition register_peak ::
  "(real list \<Rightarrow> real list \<Rightarrow> real list \<Rightarrow> error + real list) \<Rightarrow> rheed_mask \<Rightarrow> nat
     \<Rightarrow> (nat \<rightharpoonup> real list) \<times> warning list \<times> bool array2
     \<Rightarrow> error + (nat \<rightharpoonup> real list) \<times> warning list \<times> bool array2" where
  "register_peak curve_fit st p acc =
     (case acc of (gauss_fit, warns, group_mask) \<Rightarrow>
        if p \<in> set (collapses_peaks_flatten_cis st) then Inr (gauss_fit, warns, group_mask)
        else ebind (nth_e (collapses_peaks_flatten_pids st) p) (\<lambda>pid.
             ebind (nth_e (collapses_peaks_flatten_regions st) p) (\<lambda>rid.
             ebind (nth_e (regions st) rid) (\<lambda>region.
             ebind (nth_e (collapses_peaks st) rid) (\<lambda>ps.
               (case bbox region of (minr, minc, maxr, maxc) \<Rightarrow>
                  if length ps = 1
                  then ebind (or_into group_mask minr maxr minc maxc (image_r region)) (\<lambda>gm.
                         Inr (gauss_fit, warns, gm))
                  else ebind (mask_select (map (\<lambda>r. r = rid) (collapses_peaks_flatten_regions st))
                                (collapses_peaks_flatten_pids st)) (\<lambda>p_neighbor.
                       if p_neighbor = [] then Inl ValueError
                       else let pid' = int pid - int (Min (set p_neighbor))
                            in ebind (fit_region curve_fit st rid gauss_fit warns)
                                 (\<lambda>(popt, gauss_fit', warns').
                               ebind (py_get popt (pid' * 3 + 1)) (\<lambda>x0.
                               ebind (py_get popt (pid' * 3 + 2)) (\<lambda>sig.
                                 let old_minc = minc;
                                     minc' = max minc (py_int (x0 - \<bar>sig\<bar>));
                                     maxc' = min maxc (py_int (x0 + \<bar>sig\<bar>))
                                 in (case carve group_mask region minr maxr minc' maxc' old_minc
                                            rid warns' of
                                       (warns'', gm) \<Rightarrow> Inr (gauss_fit', warns'', gm))))))))))))"

definition selected_families :: "rheed_mask \<Rightarrow> int \<Rightarrow> error + peak_analysis_result list" where
  "selected_families st ul =
     emap (nth_e (collapses_peaks_flatten_ana_res st))
       (filter (\<lambda>i. cluster_labels st ! i = ul) [0..<length (cluster_labels st)])"

text \<open>The body of the loop over the labels \<open>ul\<close> of the pattern.\<close>

definition label_step ::
  "(real list \<Rightarrow> real list \<Rightarrow> real list \<Rightarrow> error + real list) \<Rightarrow> rheed_mask \<Rightarrow> int
     \<Rightarrow> (nat \<rightharpoonup> real list) \<times> warning list \<times> real list
     \<Rightarrow> error + (nat \<rightharpoonup> real list) \<times> warning list \<times> real list" where
  "label_step curve_fit st ul acc =
     (case acc of (gauss_fit, warns, group_intensity) \<Rightarrow>
        ebind (selected_families st ul) (\<lambda>selected.
        ebind (efold (register_peak curve_fit st) (concat (map peaks_family selected))
                 (gauss_fit, warns, full (nrows (pattern st)) (a_cols (pattern st)) False))
          (\<lambda>(gauss_fit', warns', group_mask).
             Inr (gauss_fit', warns', group_intensity @ [masked_sum group_mask (pattern st)]))))"

text \<open>
  The result is the group intensities, the relative intensities (\<open>None\<close> where the division
  by a zero total gives \<open>nan\<close> or an infinity) and the warnings emitted.
\<close>

definition get_group_intensity ::
  "(real list \<Rightarrow> real list \<Rightarrow> real list \<Rightarrow> error + real list) \<Rightarrow> rheed_mask
     \<Rightarrow> error + real list \<times> real option list \<times> warning list" where
  "get_group_intensity curve_fit st =
     ebind (efold (label_step curve_fit st) (cluster_labels_unique st) (Map.empty, [], []))
       (\<lambda>(gauss_fit, warns, group_intensity).
          if cluster_labels_unique st = [] then Inl UnboundLocalError
          else let total = sum_list group_intensity
               in Inr (group_intensity,
                       map (\<lambda>g. if total = 0 then None else Some (g / total)) group_intensity,
                       warns))"

section \<open>Well-formed patterns and fitters\<close>














section \<open>Example inputs\<close>

text \<open>
  The scenario of the specification: a spectrum over the coordinates 0, 1, ..., 120 (so
  that the centre target is 60), with peaks at the positions 10, 20, 30, 40 and 100.
\<close>

abbreviation scenario :: spectrum where
  "scenario \<equiv> \<lparr>spec = replicate 121 0, ws = map real [0..<121]\<rparr>"

text \<open>
  A pattern of 2 x 8 pixels with two regions: columns 0 to 2 with one peak (at column 1),
  and columns 4 to 7 with two peaks (at columns 4 and 7).  The midpoint is column 4, so
  with an absolute tolerance of 1 the peak at column 4 is the one centre peak.
\<close>

definition example_mask :: rheed_mask where
  "example_mask =
     \<lparr>pattern = \<lparr>a_cols = 8, a_rows = [[1, 2, 1, 0, 3, 1, 1, 4], [1, 2, 1, 0, 3, 1, 1, 4]]\<rparr>,
      regions = [\<lparr>bbox = (0, 0, 2, 3), image_r = full 2 3 True\<rparr>,
                 \<lparr>bbox = (0, 4, 2, 8), image_r = full 2 4 True\<rparr>],
      collapses = [\<lparr>spec = [2, 4, 2], ws = [0, 1, 2]\<rparr>, \<lparr>spec = [6, 2, 2, 8], ws = [4, 5, 6, 7]\<rparr>],
      collapses_peaks = [[1], [0, 3]],
      collapses_peaks_ws = [[1], [4, 7]],
      collapses_peaks_regions = [[0], [1, 1]],
      collapses_peaks_ws_flatten = [1, 4, 7],
      collapses_peaks_flatten = [1, 0, 3],
      collapses_peaks_flatten_pids = [0, 1, 2],
      collapses_peaks_flatten_regions = [0, 1, 1],
      collapses_peaks_flatten_nbr_dist = [- 3, 0, 3],
      collapses_peaks_flatten_ci = 1,
      collapses_peaks_flatten_cis = [1],
      collapses_peaks_flatten_ciw = 4,
      collapses_peaks_flatten_ana_res =
        [\<lparr>peaks_family = [0, 1, 2], avg_dist = Fin 3, avg_err = 0\<rparr>,
         \<lparr>peaks_family = [1, 2], avg_dist = Fin 3, avg_err = 0\<rparr>],
      cluster_labels = [0, 1],
      cluster_labels_unique = [0, 1]\<rparr>"

section \<open>Properties of the spectrum operations\<close>

subsection \<open>Normalisation\<close>

lemma scale_mono: "0 < d \<Longrightarrow> mono (\<lambda>x::real. (x - m) / d)"
  by (rule monoI) (simp add: divide_right_mono)

lemma normalization_values_Inr:
  assumes "s \<noteq> []"
  shows "normalization_values s =
           Inr (map (\<lambda>x. (x - Min (set s)) / (Max (set s) - Min (set s) + 1 / 100000)) s)"
  using assms by (simp add: normalization_values_def Let_def)

lemma normalization_values_extrema:
  assumes ne: "s \<noteq> []" and eq: "normalization_values s = Inr ns"
  defines "r \<equiv> Max (set s) - Min (set s)"
  shows "length ns = length s" and "Min (set ns) = 0" and "Max (set ns) = r / (r + 1 / 100000)"
proof -
  let ?d = "r + 1 / 100000"
  let ?f = "\<lambda>x. (x - Min (set s)) / ?d"
  have fin: "finite (set s)" and nonempty: "set s \<noteq> {}" using ne by simp_all
  have "Min (set s) \<le> Max (set s)" using fin nonempty by simp
  then have dpos: "0 < ?d" by (simp add: r_def)
  have ns: "ns = map ?f s"
    using eq normalization_values_Inr [OF ne] by (simp add: r_def)
  have m: "mono ?f" using dpos by (rule scale_mono)
  show "length ns = length s" by (simp add: ns)
  have "Min (set ns) = ?f (Min (set s))"
    using mono_Min_commute [OF m fin nonempty] by (simp add: ns)
  then show "Min (set ns) = 0" by simp
  have "Max (set ns) = ?f (Max (set s))"
    using mono_Max_commute [OF m fin nonempty] by (simp add: ns)
  then show "Max (set ns) = r / (r + 1 / 100000)" by (simp add: r_def)
qed

lemma near_one_iff:
  fixes r :: real
  assumes "0 \<le> r"
  shows "\<bar>r / (r + 1 / 100000) - 1\<bar> \<le> 1 / 100000 \<longleftrightarrow> 1 - 1 / 100000 \<le> r"
proof -
  have pos: "0 < r + 1 / 100000" using assms by simp
  have "r / (r + 1 / 100000) - 1 = - (1 / 100000) / (r + 1 / 100000)"
    using pos by (simp add: field_simps)
  then have "\<bar>r / (r + 1 / 100000) - 1\<bar> = (1 / 100000) / (r + 1 / 100000)"
    using pos by simp
  also have "\<dots> \<le> 1 / 100000 \<longleftrightarrow> 1 - 1 / 100000 \<le> r"
    using pos by (simp add: field_simps)
  finally show ?thesis .
qed

text \<open>
  Claim C9, as the code has it.  For a spectrum with at least one sample, \<open>normalization\<close>
  returns a spectrum of the same length whose minimum is exactly 0 and whose maximum is
  \<open>r / (r + 1e-5)\<close>, where \<open>r\<close> is the range (maximum minus minimum) of the input.  The
  maximum is therefore within \<open>1e-5\<close> of 1 exactly when the range is at least \<open>1 - 1e-5\<close>.
\<close>

theorem normalization_extrema:
  assumes "self < length h" and "spec (h ! self) \<noteq> []"
  shows "\<exists>r h'. normalization h self inplace = Inr (r, h') \<and> r < length h'
           \<and> length (spec (h' ! r)) = length (spec (h ! self))
           \<and> Min (set (spec (h' ! r))) = 0
           \<and> Max (set (spec (h' ! r)))
               = (Max (set (spec (h ! self))) - Min (set (spec (h ! self))))
                 / (Max (set (spec (h ! self))) - Min (set (spec (h ! self))) + 1 / 100000)
           \<and> (\<bar>Max (set (spec (h' ! r))) - 1\<bar> \<le> 1 / 100000
                \<longleftrightarrow> 1 - 1 / 100000 \<le> Max (set (spec (h ! self))) - Min (set (spec (h ! self))))"
proof -
  let ?s = "spec (h ! self)"
  obtain ns where ns: "normalization_values ?s = Inr ns"
    using normalization_values_Inr [OF assms(2)] by blast
  note ex = normalization_values_extrema [OF assms(2) ns]
  have "0 \<le> Max (set ?s) - Min (set ?s)" using assms(2) by simp
  note near = near_one_iff [OF this]
  show ?thesis
  proof (cases inplace)
    case True
    then show ?thesis using ns ex near assms(1)
      by (simp add: normalization_def update_spectrum_def ebind_def)
  next
    case False
    then show ?thesis using ns ex near
      by (simp add: normalization_def update_spectrum_def ebind_def)
  qed
qed

theorem normalization_extrema_witness:
  "\<exists>r h'. normalization [\<lparr>spec = [2, 5, 3], ws = [0, 1, 2]\<rparr>] 0 True = Inr (r, h')
      \<and> Min (set (spec (h' ! r))) = 0 \<and> \<bar>Max (set (spec (h' ! r))) - 1\<bar> \<le> 1 / 100000"
proof -
  obtain r h' where "normalization [\<lparr>spec = [2, 5, 3], ws = [0, 1, 2]\<rparr>] 0 True = Inr (r, h')"
    "Min (set (spec (h' ! r))) = 0"
    "\<bar>Max (set (spec (h' ! r))) - 1\<bar> \<le> 1 / 100000
       \<longleftrightarrow> 1 - 1 / 100000 \<le> Max (set (spec ([\<lparr>spec = [2, 5, 3], ws = [0, 1, 2]\<rparr>] ! 0)))
            - Min (set (spec ([\<lparr>spec = [2, 5, 3], ws = [0, 1, 2]\<rparr>] ! 0)))"
    using normalization_extrema [of 0 "[\<lparr>spec = [2, 5, 3], ws = [0, 1, 2]\<rparr>]" True]
    by auto
  then show ?thesis by (intro exI [of _ r] exI [of _ h']) simp
qed

text \<open>
  A constant spectrum is normalised to zeros: its maximum is 0, not near 1.
\<close>

theorem normalization_constant_counterexample:
  "normalization [\<lparr>spec = [1, 1], ws = [0, 1]\<rparr>] 0 True
     = Inr (0, [\<lparr>spec = [0, 0], ws = [0, 1]\<rparr>])
   \<and> \<not> \<bar>Max (set (spec \<lparr>spec = [0, 0], ws = [0, 1]\<rparr>)) - 1\<bar> \<le> 1 / 100000"
  by (simp add: normalization_def normalization_values_def update_spectrum_def ebind_def)

subsection \<open>In-place and copying variants\<close>

lemma normalization_copy:
  assumes "normalization h self False = Inr (r, h')"
  shows "r = length h \<and> take (length h) h' = h \<and> ws (h' ! r) = ws (h ! self)"
  using assms
  by (auto simp: normalization_def ebind_def update_spectrum_def split: sum.splits)

lemma clip_copy:
  assumes "clip h self lo hi False = (r, h')"
  shows "r = length h \<and> take (length h) h' = h \<and> ws (h' ! r) = ws (h ! self)
         \<and> length (spec (h' ! r)) = length (spec (h ! self))"
  using assms by (auto simp: clip_def update_spectrum_def)

lemma remove_background_copy:
  assumes "remove_background linalg_inv h self n False = Inr (r, h')"
  shows "r = length h \<and> take (length h) h' = h \<and> ws (h' ! r) = ws (h ! self)"
  using assms
  by (auto simp: remove_background_def ebind_def update_spectrum_def split: sum.splits)

lemma filling_flat_copy:
  assumes "filling_flat interp1d h self trunc False = Inr (r, h')"
  shows "r = length h \<and> take (length h) h' = h \<and> ws (h' ! r) = ws (h ! self)"
  using assms
  by (auto simp: filling_flat_def ebind_def Let_def split: sum.splits if_splits)

text \<open>
  Claim C8 says that every mutation, called with \<open>inplace=False\<close>, returns a new spectrum
  and leaves the receiver as it was.  The four operations above do (the object returned
  is the one appended to the store, and the old part of the store is unchanged).
  \<open>smooth\<close> does not: whatever \<open>inplace\<close> is, it overwrites the intensities of the receiver
  with the filtered ones and returns the receiver itself.
\<close>

theorem smooth_ignores_inplace:
  "smooth gaussian_filter1d h self sigma False
     = (self, h[self := \<lparr>spec = gaussian_filter1d sigma (spec (h ! self)), ws = ws (h ! self)\<rparr>])"
  by (simp add: smooth_def update_spectrum_def)

lemma smooth_copy_example:
  "smooth gaussian_filter1d [\<lparr>spec = [0, 2, 0], ws = [0, 1, 2]\<rparr>] 0 1 False
     = (0, [\<lparr>spec = gaussian_filter1d 1 [0, 2, 0], ws = [0, 1, 2]\<rparr>])"
  by (simp add: smooth_def update_spectrum_def)

subsection \<open>Background removal when the inversion raises\<close>


text \<open>With \<open>n = 2\<close>, the exception of the inversion is the one of \<open>remove_background\<close>.\<close>

lemma remove_background_raises:
  assumes "linalg_inv (normal_matrix (take 2 (ws (h ! cs)) @ drop (length (ws (h ! cs)) - 2) (ws (h ! cs))))
             = Inl e"
  shows "remove_background linalg_inv h cs 2 inplace = Inl e"
  using assms
  by (simp add: remove_background_def remove_background_values_def baseline_points_def ebind_def)





text \<open>
  On the spectrum class of the sources the scaling step of \<open>clean_collapse\<close> raises
  \<open>AttributeError\<close>, whether or not the inversion has raised before.
\<close>

lemma clean_one_scale_AttributeError:
  "clean_one (\<lambda>M. if M = (0, 0, 0, 2) then Inl LinAlgError else Inr M)
     (\<lambda>h r. Inl AttributeError) gf True True do_smooth 0 ([\<lparr>spec = [5], ws = [0]\<rparr>], [])
     = Inl AttributeError"
  by (simp add: clean_one_def ebind_def remove_background_def remove_background_values_def
      baseline_points_def normal_matrix_def)

section \<open>Properties of the Peak Distance Engine\<close>

subsection \<open>Accepted families\<close>

lemma efold_invariant:
  assumes step: "\<And>x s s'. f x s = Inr s' \<Longrightarrow> I s \<Longrightarrow> I s'"
  shows "I s \<Longrightarrow> efold f xs s = Inr s' \<Longrightarrow> I s'"
proof (induction xs arbitrary: s)
  case Nil
  then show ?case by simp
next
  case (Cons x xs)
  from Cons.prems(2) obtain s1 where s1: "f x s = Inr s1" and rest: "efold f xs s1 = Inr s'"
    by (cases "f x s") (simp_all add: ebind_def)
  from step [OF s1 Cons.prems(1)] have "I s1" .
  from Cons.IH [OF this rest] show ?case .
qed

lemma nbr_step_out:
  assumes "nbr_step n cnd cp ci gmin gmax tol atol allow j (m, out) = Inr (m', out')"
  shows "out' = out \<or>
         (\<exists>d grid idx gidx. py_get cnd j = Inr d \<and> atol < \<bar>d\<bar>
            \<and> create_grid gmin gmax cp \<bar>d\<bar> = Inr grid
            \<and> match_grid cnd grid (min (tol * \<bar>d\<bar>) atol) = Inr (idx, gidx)
            \<and> accepted allow gidx
            \<and> out' = out @ [family cnd grid \<bar>d\<bar> idx gidx])"
  using assms unfolding nbr_step_def ebind_def Let_def
  by (auto split: if_splits sum.splits prod.splits)

lemma create_grid_form:
  assumes "create_grid a b c d = Inr grid"
  shows "d \<noteq> 0 \<and> (\<exists>ln rn. grid = map (\<lambda>k. real_of_int k * d) [ln..rn])"
  using assms unfolding create_grid_def floor_div_def ebind_def
  by (auto split: if_splits sum.splits)

lemma argmin_from_less: "bi < i \<Longrightarrow> argmin_from bi bv i xs < i + length xs"
proof (induction xs arbitrary: bi bv i)
  case Nil
  then show ?case by simp
next
  case (Cons x xs)
  show ?case
    using Cons.IH [of i "Suc i" x] Cons.IH [of bi "Suc i" bv] Cons.prems by auto
qed

lemma argmin_less: "argmin xs = Inr k \<Longrightarrow> k < length xs"
  using argmin_from_less [of 0 1]
  by (auto simp: argmin_def split: list.splits)

lemma emap_set:
  "emap f xs = Inr ys \<Longrightarrow> y \<in> set ys \<Longrightarrow> \<exists>x \<in> set xs. f x = Inr y"
  by (induction xs arbitrary: ys) (auto simp: ebind_def split: sum.splits)

lemma mask_select_subset: "mask_select m xs = Inr ys \<Longrightarrow> set ys \<subseteq> set xs"
  by (force simp: mask_select_def split: if_splits dest!: set_zip_rightD)

lemma match_grid_gidx:
  assumes "match_grid cnd grid t = Inr (idx, gidx)" and "g \<in> set gidx"
  shows "g < length grid"
proof -
  from assms(1) obtain close where cl: "emap argmin (distance_matrix cnd grid) = Inr close"
    and sel: "set gidx \<subseteq> set close"
    unfolding match_grid_def ebind_def Let_def
    by (auto split: if_splits sum.splits dest: mask_select_subset)
  from sel assms(2) have "g \<in> set close" by auto
  from emap_set [OF cl this] obtain row where
    row: "row \<in> set (distance_matrix cnd grid)" and am: "argmin row = Inr g" by auto
  from row have "length row = length grid" by (auto simp: distance_matrix_def)
  with argmin_less [OF am] show ?thesis by simp
qed

lemma shift_sorted_remdups:
  "sort (remdups (map (\<lambda>g. c + int g) xs)) = map (\<lambda>g. c + int g) (sort (remdups xs))"
proof (rule sorted_distinct_set_unique)
  show "sorted (sort (remdups (map (\<lambda>g. c + int g) xs)))" by simp
  show "distinct (sort (remdups (map (\<lambda>g. c + int g) xs)))" by simp
  show "sorted (map (\<lambda>g. c + int g) (sort (remdups xs)))"
    by (simp add: sorted_map)
  show "distinct (map (\<lambda>g. c + int g) (sort (remdups xs)))"
    by (simp add: distinct_map inj_on_def)
  show "set (sort (remdups (map (\<lambda>g. c + int g) xs))) = set (map (\<lambda>g. c + int g) (sort (remdups xs)))"
    by simp
qed

lemma accepted_multiples:
  fixes c :: int
  assumes "accepted allow gidx"
  defines "ms \<equiv> map (\<lambda>g. c + int g) gidx"
  shows "2 \<le> card (set ms)"
    and "\<forall>k. Suc k < length (sort (remdups ms)) \<longrightarrow>
           sort (remdups ms) ! Suc k - sort (remdups ms) ! k \<le> allow + 1"
proof -
  let ?u = "uni_gidx gidx"
  have len: "1 < length ?u"
    and cont: "\<forall>x \<in> set (continuity ?u). x \<le> allow + 1"
    using assms(1) by (auto simp: accepted_def)
  have "card (set ms) = card (set gidx)"
    unfolding ms_def set_map by (rule card_image) (simp add: inj_on_def)
  also have "\<dots> = length ?u"
    by (simp add: uni_gidx_def length_remdups_card_conv)
  finally show "2 \<le> card (set ms)" using len by simp
  have u: "sort (remdups ms) = map (\<lambda>g. c + int g) ?u"
    unfolding ms_def uni_gidx_def by (rule shift_sorted_remdups)
  show "\<forall>k. Suc k < length (sort (remdups ms)) \<longrightarrow>
           sort (remdups ms) ! Suc k - sort (remdups ms) ! k \<le> allow + 1"
  proof (intro allI impI)
    fix k assume k: "Suc k < length (sort (remdups ms))"
    then have k': "Suc k < length ?u" by (simp add: u)
    then have "k < length (continuity ?u)" by (simp add: continuity_def)
    then have "continuity ?u ! k \<in> set (continuity ?u)" by simp
    moreover have "continuity ?u ! k = int (?u ! Suc k) - int (?u ! k)"
      using k' by (simp add: continuity_def nth_tl)
    ultimately have "int (?u ! Suc k) - int (?u ! k) \<le> allow + 1" using cont by auto
    then show "sort (remdups ms) ! Suc k - sort (remdups ms) ! k \<le> allow + 1"
      using k' by (simp add: u)
  qed
qed

text \<open>
  Claim C4.  Every family that \<open>analyze_peaks_distance_cent\<close> returns comes from a
  neighbour \<open>j\<close> of the centre with spacing \<open>|d|\<close> beyond the absolute tolerance, and from
  the grid of that spacing.  Its members are the peaks matched to that grid; the grid lines
  they hit are the integer multiples \<open>c + g\<close> of the spacing (\<open>g\<close> ranging over \<open>gidx\<close>), of
  which at least two are distinct, and consecutive ones of the sorted distinct multiples
  differ by at most \<open>allow_discontinue + 1\<close>.
\<close>

theorem accepted_families:
  assumes "analyze_peaks_distance_cent peaks cnd cp ci gmin gmax tolerant abs_tolerant allow
             = Inr out"
    and "res \<in> set out"
  shows "\<exists>j d grid gidx c.
           py_get cnd j = Inr d \<and> abs_tolerant < \<bar>d\<bar>
         \<and> create_grid gmin gmax cp \<bar>d\<bar> = Inr grid
         \<and> match_grid cnd grid (min (tolerant * \<bar>d\<bar>) abs_tolerant) = Inr (peaks_family res, gidx)
         \<and> res = family cnd grid \<bar>d\<bar> (peaks_family res) gidx
         \<and> (\<forall>g \<in> set gidx. g < length grid \<and> grid ! g / \<bar>d\<bar> = real_of_int (c + int g))
         \<and> 2 \<le> card (set (map (\<lambda>g. c + int g) gidx))
         \<and> (\<forall>k. Suc k < length (sort (remdups (map (\<lambda>g. c + int g) gidx))) \<longrightarrow>
                sort (remdups (map (\<lambda>g. c + int g) gidx)) ! Suc k
                  - sort (remdups (map (\<lambda>g. c + int g) gidx)) ! k \<le> allow + 1)"
proof -
  let ?P = "\<lambda>res. \<exists>j d grid gidx c.
           py_get cnd j = Inr d \<and> abs_tolerant < \<bar>d\<bar>
         \<and> create_grid gmin gmax cp \<bar>d\<bar> = Inr grid
         \<and> match_grid cnd grid (min (tolerant * \<bar>d\<bar>) abs_tolerant) = Inr (peaks_family res, gidx)
         \<and> res = family cnd grid \<bar>d\<bar> (peaks_family res) gidx
         \<and> (\<forall>g \<in> set gidx. g < length grid \<and> grid ! g / \<bar>d\<bar> = real_of_int (c + int g))
         \<and> 2 \<le> card (set (map (\<lambda>g. c + int g) gidx))
         \<and> (\<forall>k. Suc k < length (sort (remdups (map (\<lambda>g. c + int g) gidx))) \<longrightarrow>
                sort (remdups (map (\<lambda>g. c + int g) gidx)) ! Suc k
                  - sort (remdups (map (\<lambda>g. c + int g) gidx)) ! k \<le> allow + 1)"
  let ?I = "\<lambda>s. \<forall>r \<in> set (snd s). ?P r"
  let ?f = "nbr_step (length peaks) cnd cp ci gmin gmax tolerant abs_tolerant allow"
  have step: "?I s'" if eq: "?f j s = Inr s'" and inv: "?I s" for j s s'
  proof -
    obtain m out m' out' where s: "s = (m, out)" and s': "s' = (m', out')"
      by (cases s, cases s')
    from nbr_step_out [OF eq [unfolded s s']]
    consider "out' = out"
      | d grid idx gidx where "py_get cnd j = Inr d" "abs_tolerant < \<bar>d\<bar>"
          "create_grid gmin gmax cp \<bar>d\<bar> = Inr grid"
          "match_grid cnd grid (min (tolerant * \<bar>d\<bar>) abs_tolerant) = Inr (idx, gidx)"
          "accepted allow gidx" "out' = out @ [family cnd grid \<bar>d\<bar> idx gidx]"
      by blast
    then show ?thesis
    proof cases
      case 1
      with inv s s' show ?thesis by simp
    next
      case 2
      let ?r = "family cnd grid \<bar>d\<bar> idx gidx"
      have pf: "peaks_family ?r = idx" by (simp add: family_def Let_def)
      from create_grid_form [OF 2(3)] obtain ln rn where
        d0: "\<bar>d\<bar> \<noteq> 0" and grid: "grid = map (\<lambda>k. real_of_int k * \<bar>d\<bar>) [ln..rn]" by blast
      have g: "g < length grid \<and> grid ! g / \<bar>d\<bar> = real_of_int (ln + int g)"
        if "g \<in> set gidx" for g
      proof -
        from match_grid_gidx [OF 2(4) that] have lt: "g < length grid" .
        then have "g < length [ln..rn]" by (simp add: grid)
        then have "[ln..rn] ! g = ln + int g" by simp
        with lt d0 show ?thesis by (simp add: grid)
      qed
      note acc = accepted_multiples [OF 2(5), of ln]
      have "?P ?r"
        apply (rule exI [of _ j], rule exI [of _ d], rule exI [of _ grid],
               rule exI [of _ gidx], rule exI [of _ ln])
        using 2(1-4) pf g acc by simp
      with inv s s' 2(6) show ?thesis by auto
    qed
  qed
  from assms(1) obtain js s' where
    fold: "efold ?f js ({}, []) = Inr s'" and out: "out = snd s'"
    unfolding analyze_peaks_distance_cent_def ebind_def
    by (auto split: sum.splits prod.splits)
  have "?I s'"
  proof (rule efold_invariant [where I = ?I and f = ?f and s = "({}, [])" and xs = js])
    show "\<And>x s s'. ?f x s = Inr s' \<Longrightarrow> ?I s \<Longrightarrow> ?I s'" by (rule step)
    show "?I ({}, [])" by simp
    show "efold ?f js ({}, []) = Inr s'" by (rule fold)
  qed
  with out assms(2) show ?thesis by blast
qed

subsection \<open>The scenario of the specification\<close>

lemma scenario_ws:
  "Max (set (ws scenario)) = 120" "length (ws scenario) div 2 = 60"
proof -
  show "Max (set (ws scenario)) = 120"
    by (simp del: upt_Suc map_append, rule Max_eqI) auto
  show "length (ws scenario) div 2 = 60" by simp
qed

lemma scenario_take:
  "take_all (ws scenario) [10, 20, 30, 40, 100] = Inr [10, 20, 30, 40, 100]"
  by (simp add: ebind_def)

lemma scenario_interdist:
  "spectrum_interdist scenario [10, 20, 30, 40, 100]
   = Inr [[0, 10, 20, 30, 90], [10, 0, 10, 20, 80], [20, 10, 0, 10, 70],
      [30, 20, 10, 0, 60], [90, 80, 70, 60, 0]]"
  unfolding spectrum_interdist_def scenario_take by code_simp

lemma scenario_center: "get_center_peak_idx (map real [10, 20, 30, 40, 100]) 60 15 = Inr 3"
  by code_simp

lemma scenario_inner:
  "analyze_peaks_distance_cent [10, 20, 30, 40, 100] [30, 20, 10, 0, 60] 40 3 0 120 (1 / 100) 15 1
   = Inr [\<lparr>peaks_family = [3, 4], avg_dist = Fin 60, avg_err = 0\<rparr>,
      \<lparr>peaks_family = [1, 3, 4], avg_dist = Fin 20, avg_err = 0\<rparr>,
      \<lparr>peaks_family = [0, 3, 4], avg_dist = Fin 30, avg_err = 0\<rparr>]"
  by code_simp

theorem accepted_families_witness:
  "analyze_peaks_distance_cent [10, 20, 30, 40, 100] [30, 20, 10, 0, 60] 40 3 0 120 (1 / 100) 15 1
   = Inr [\<lparr>peaks_family = [3, 4], avg_dist = Fin 60, avg_err = 0\<rparr>,
      \<lparr>peaks_family = [1, 3, 4], avg_dist = Fin 20, avg_err = 0\<rparr>,
      \<lparr>peaks_family = [0, 3, 4], avg_dist = Fin 30, avg_err = 0\<rparr>]
   \<and> (\<exists>j d grid gidx c.
          py_get [30, 20, 10, 0, 60] j = Inr d \<and> 15 < \<bar>d\<bar>
        \<and> create_grid 0 120 40 \<bar>d\<bar> = Inr grid
        \<and> match_grid [30, 20, 10, 0, 60] grid (min (1 / 100 * \<bar>d\<bar>) 15) = Inr ([1, 3, 4], gidx)
        \<and> 2 \<le> card (set (map (\<lambda>g. c + int g) gidx))
        \<and> (\<forall>k. Suc k < length (sort (remdups (map (\<lambda>g. c + int g) gidx))) \<longrightarrow>
               sort (remdups (map (\<lambda>g. c + int g) gidx)) ! Suc k
                 - sort (remdups (map (\<lambda>g. c + int g) gidx)) ! k \<le> 1 + 1))"
proof -
  have mem: "\<lparr>peaks_family = [1, 3, 4], avg_dist = Fin 20, avg_err = 0\<rparr>
      \<in> set [\<lparr>peaks_family = [3, 4], avg_dist = Fin 60, avg_err = 0\<rparr>,
      \<lparr>peaks_family = [1, 3, 4], avg_dist = Fin 20, avg_err = 0\<rparr>,
      \<lparr>peaks_family = [0, 3, 4], avg_dist = Fin 30, avg_err = 0\<rparr>]" by simp
  from accepted_families [OF scenario_inner mem]
  obtain j d grid gidx c where
    "py_get [30, 20, 10, 0, 60] j = Inr d" "15 < \<bar>d\<bar>"
    "create_grid 0 120 40 \<bar>d\<bar> = Inr grid"
    "match_grid [30, 20, 10, 0, 60] grid (min (1 / 100 * \<bar>d\<bar>) 15) = Inr ([1, 3, 4], gidx)"
    "2 \<le> card (set (map (\<lambda>g. c + int g) gidx))"
    "\<forall>k. Suc k < length (sort (remdups (map (\<lambda>g. c + int g) gidx))) \<longrightarrow>
               sort (remdups (map (\<lambda>g. c + int g) gidx)) ! Suc k
                 - sort (remdups (map (\<lambda>g. c + int g) gidx)) ! k \<le> 1 + 1"
    by (elim exE conjE) (simp only: peak_analysis_result.simps)
  then show ?thesis using scenario_inner by blast
qed

text \<open>
  Claim C1 says that in this scenario no centre is found (the peak nearest to 60 is the one
  at 40, at distance 20 > 15) and that the result is empty.  The code compares
  \<open>peaks[ci] - spec_center_loc\<close>, without the absolute value, with the tolerance: the
  difference is \<open>-20 < 15\<close>, so the peak at 40 (index 3) is taken as the centre and three
  families are returned.
\<close>

theorem scenario_center_accepted:
  "get_center_peak_idx (map real [10, 20, 30, 40, 100]) 60 15 = Inr 3
   \<and> spectrum_analyze_peaks_distance_cent scenario [10, 20, 30, 40, 100] (1 / 100) 15 1
     = Inr [\<lparr>peaks_family = [3, 4], avg_dist = Fin 60, avg_err = 0\<rparr>,
        \<lparr>peaks_family = [1, 3, 4], avg_dist = Fin 20, avg_err = 0\<rparr>,
        \<lparr>peaks_family = [0, 3, 4], avg_dist = Fin 30, avg_err = 0\<rparr>]"
proof
  show "get_center_peak_idx (map real [10, 20, 30, 40, 100]) 60 15 = Inr 3"
    by (rule scenario_center)
  show "spectrum_analyze_peaks_distance_cent scenario [10, 20, 30, 40, 100] (1 / 100) 15 1
     = Inr [\<lparr>peaks_family = [3, 4], avg_dist = Fin 60, avg_err = 0\<rparr>,
        \<lparr>peaks_family = [1, 3, 4], avg_dist = Fin 20, avg_err = 0\<rparr>,
        \<lparr>peaks_family = [0, 3, 4], avg_dist = Fin 30, avg_err = 0\<rparr>]"
    unfolding spectrum_analyze_peaks_distance_cent_def
    using scenario_ws scenario_interdist scenario_center scenario_inner
    by (simp add: ebind_def py_get_def norm_index_def)
qed

text \<open>
  Where the nearest peak lies to the right of the midpoint, the comparison does what the
  claim says: peaks at 20 and 90 (the nearer one at distance 30) give no centre.
\<close>

lemma center_right_of_midpoint:
  "get_center_peak_idx (map real [20, 90]) 60 15 = Inr (- 1)
   \<and> spectrum_analyze_peaks_distance_cent scenario [20, 90] (1 / 100) 15 1 = Inr []"
proof
  show c: "get_center_peak_idx (map real [20, 90]) 60 15 = Inr (- 1)" by code_simp
  have t: "take_all (ws scenario) [20, 90] = Inr [20, 90]" by (simp add: ebind_def)
  have "\<exists>m. spectrum_interdist scenario [20, 90] = Inr m"
    unfolding spectrum_interdist_def t
    by (simp add: ebind_def matrix_of_def get_peaks_distance_def)
  then obtain m where "spectrum_interdist scenario [20, 90] = Inr m" ..
  then show "spectrum_analyze_peaks_distance_cent scenario [20, 90] (1 / 100) 15 1 = Inr []"
    unfolding spectrum_analyze_peaks_distance_cent_def
    using scenario_ws c by (simp add: ebind_def)
qed

subsection \<open>Polarity of the distance matrix\<close>

lemma take_all_length: "take_all xs is = Inr ys \<Longrightarrow> length ys = length is"
  by (induction "is" arbitrary: ys) (auto split: if_splits sum.splits)

lemma take_all_nth: "take_all xs is = Inr ys \<Longrightarrow> i < length is \<Longrightarrow> ys ! i = xs ! (is ! i)"
proof (induction "is" arbitrary: ys i)
  case Nil
  then show ?case by simp
next
  case (Cons a "is")
  then show ?case
    by (cases i) (auto simp: ebind_def split: if_splits sum.splits)
qed

lemma negate_tril_nth:
  "i < length m \<Longrightarrow> j < length (m ! i) \<Longrightarrow>
     negate_tril m ! i ! j = (if j \<le> i then - (m ! i ! j) else m ! i ! j)"
  by (simp add: negate_tril_def nth_enumerate_eq)

lemma negate_tril_length:
  "length (negate_tril m) = length m"
  "i < length m \<Longrightarrow> length (negate_tril m ! i) = length (m ! i)"
  by (simp_all add: negate_tril_def nth_enumerate_eq)

lemma distance_matrix_nth:
  "i < length xs \<Longrightarrow> j < length ys \<Longrightarrow> distance_matrix xs ys ! i ! j = \<bar>xs ! i - ys ! j\<bar>"
  by (simp add: distance_matrix_def)

lemma distance_matrix_length:
  "length (distance_matrix xs ys) = length xs"
  "i < length xs \<Longrightarrow> length (distance_matrix xs ys ! i) = length ys"
  by (simp_all add: distance_matrix_def)

text \<open>
  The matrix that \<open>get_peaks_distance\<close> returns with \<open>polar=True\<close>, which is the one the
  cross-region path consumes, is polar.
\<close>

lemma rheed_interdist_polar:
  assumes "rheed_interdist w = Inr m" and "i < length w" and "j < length w" and "i \<noteq> j"
  shows "m ! i ! j = - (m ! j ! i)"
proof -
  have m: "m = negate_tril (distance_matrix w w)"
    using assms(1) by (simp add: rheed_interdist_def get_peaks_distance_def matrix_of_def)
  show ?thesis
    using assms(2-4)
    by (auto simp: m negate_tril_nth distance_matrix_nth distance_matrix_length)
qed

text \<open>
  The per-spectrum path negates the lower triangle of that matrix a second time, which
  undoes the polarisation: the matrix it consumes is symmetric and non-negative.
\<close>

lemma spectrum_interdist_symmetric:
  assumes "spectrum_interdist s peaks = Inr m" and "i < length peaks" and "j < length peaks"
  shows "m ! i ! j = \<bar>ws s ! (peaks ! i) - ws s ! (peaks ! j)\<bar> \<and> m ! i ! j = m ! j ! i"
proof -
  from assms(1) obtain pw where pw: "take_all (ws s) peaks = Inr pw"
    and m: "m = negate_tril (negate_tril (distance_matrix pw pw))"
    by (auto simp: spectrum_interdist_def ebind_def get_peaks_distance_def matrix_of_def
        split: sum.splits)
  have len: "length pw = length peaks" by (rule take_all_length [OF pw])
  have e: "m ! a ! b = \<bar>pw ! a - pw ! b\<bar>" if "a < length pw" "b < length pw" for a b
    using that
    by (simp add: m negate_tril_nth negate_tril_length distance_matrix_nth distance_matrix_length)
  have "m ! i ! j = \<bar>pw ! i - pw ! j\<bar>" "m ! j ! i = \<bar>pw ! j - pw ! i\<bar>"
    using assms(2,3) len by (simp_all add: e)
  then show ?thesis
    using take_all_nth [OF pw assms(2)] take_all_nth [OF pw assms(3)] by simp
qed

text \<open>
  Claim C5 says that the matrix consumed is polar on both paths.  On the per-spectrum path
  it is not: in the scenario the entries for the peaks at 40 and 100 are both 60, where a
  polar matrix has 60 and -60.
\<close>

theorem spectrum_interdist_not_polar:
  "spectrum_interdist scenario [10, 20, 30, 40, 100]
     = Inr [[0, 10, 20, 30, 90], [10, 0, 10, 20, 80], [20, 10, 0, 10, 70],
        [30, 20, 10, 0, 60], [90, 80, 70, 60, 0]]
   \<and> [[0, 10, 20, 30, 90], [10, 0, 10, 20, 80], [20, 10, 0, 10, 70],
        [30, 20, 10, 0, 60], [90, 80, 70, 60, 0 :: real]] ! 3 ! 4 = 60
   \<and> [[0, 10, 20, 30, 90], [10, 0, 10, 20, 80], [20, 10, 0, 10, 70],
        [30, 20, 10, 0, 60], [90, 80, 70, 60, 0 :: real]] ! 4 ! 3 = 60"
  using scenario_interdist by simp

section \<open>Properties of the Peak Group Resolver\<close>

lemma take_all_total:
  "\<forall>k \<in> set is. k < length xs \<Longrightarrow> take_all xs is = Inr (map ((!) xs) is)"
  by (induction "is") (simp_all add: ebind_def)

lemma efold_total:
  assumes "\<And>x a. x \<in> set xs \<Longrightarrow> I a \<Longrightarrow> \<exists>a'. f x a = Inr a' \<and> I a'"
  shows "I a \<Longrightarrow> \<exists>a'. efold f xs a = Inr a' \<and> I a'"
  using assms
proof (induction xs arbitrary: a)
  case Nil
  then show ?case by simp
next
  case (Cons x xs)
  from Cons.prems(2) [of x a] Cons.prems(1) obtain a1 where a1: "f x a = Inr a1" "I a1" by auto
  from Cons.IH [OF a1(2)] Cons.prems(2) obtain a' where "efold f xs a1 = Inr a'" "I a'" by auto
  with a1 show ?case by (simp add: ebind_def)
qed

lemma take_all_map: "take_all xs is = Inr ys \<Longrightarrow> (\<forall>i \<in> set is. i < length xs) \<and> ys = map ((!) xs) is"
  by (induction "is" arbitrary: ys) (auto simp: ebind_def split: if_splits sum.splits)

lemma fold_set_True_length: "length (fold (\<lambda>i s. s[i := True]) fam sel) = length sel"
  by (induction fam arbitrary: sel) simp_all

lemma fold_set_True_nth:
  "k < length sel \<Longrightarrow> fold (\<lambda>i s. s[i := True]) fam sel ! k \<longleftrightarrow> sel ! k \<or> k \<in> set fam"
proof (induction fam arbitrary: sel)
  case Nil
  then show ?case by simp
next
  case (Cons a fam)
  have upd: "sel[a := True] ! k \<longleftrightarrow> sel ! k \<or> k = a"
    using Cons.prems by (cases "a = k") auto
  from Cons.IH [of "sel[a := True]"] Cons.prems upd show ?case by auto
qed

lemma group_step_cases:
  assumes "group_step True (fam, ad) (sel, out) = Inr (sel', out')"
  shows "(sel' = sel \<and> out' = out)
       \<or> (ad \<noteq> PInf \<and> (\<forall>i \<in> set fam. i < length sel \<and> \<not> sel ! i)
          \<and> sel' = fold (\<lambda>i s. s[i := True]) fam sel \<and> out' = out @ [(fam, ad)])"
  using assms unfolding group_step_def ebind_def set_all_def
  by (auto split: if_splits sum.splits dest!: take_all_map)

lemma disjoint_groups_snoc:
  assumes "disjoint_groups out" and "\<forall>g \<in> set out. set (fst g) \<inter> set (fst x) = {}"
  shows "disjoint_groups (out @ [x])"
  unfolding disjoint_groups_def
proof (intro allI impI)
  fix i j assume ij: "i < j \<and> j < length (out @ [x])"
  show "set (fst ((out @ [x]) ! i)) \<inter> set (fst ((out @ [x]) ! j)) = {}"
  proof (cases "j < length out")
    case True
    with ij assms(1) show ?thesis by (simp add: disjoint_groups_def nth_append)
  next
    case False
    with ij have j: "j = length out" and i: "i < length out" by auto
    from i have "out ! i \<in> set out" by simp
    with assms(2) i j show ?thesis by (simp add: nth_append)
  qed
qed

lemma group_fold_invariant:
  assumes "efold (group_step True) xs (sel, out) = Inr (sel', out')"
    and "length sel = n"
    and "\<forall>k < n. sel ! k \<longleftrightarrow> k \<in> (\<Union>g \<in> set out. set (fst g))"
    and "disjoint_groups out"
    and "\<forall>g \<in> set out. snd g \<noteq> PInf \<and> set (fst g) \<subseteq> {0..<n}"
    and "sorted (map (\<lambda>g. dist_key (snd g)) (out @ xs))"
  shows "length sel' = n
       \<and> (\<forall>k < n. sel' ! k \<longleftrightarrow> k \<in> (\<Union>g \<in> set out'. set (fst g)))
       \<and> disjoint_groups out'
       \<and> (\<forall>g \<in> set out'. snd g \<noteq> PInf \<and> set (fst g) \<subseteq> {0..<n})
       \<and> sorted (map (\<lambda>g. dist_key (snd g)) out')
       \<and> set out' \<subseteq> set out \<union> set xs"
  using assms
proof (induction xs arbitrary: sel out)
  case Nil
  then show ?case by simp
next
  case (Cons x xs)
  obtain fam ad where x: "x = (fam, ad)" by (cases x)
  from Cons.prems(1) obtain sel1 out1 where
    s1: "group_step True (fam, ad) (sel, out) = Inr (sel1, out1)"
    and rest: "efold (group_step True) xs (sel1, out1) = Inr (sel', out')"
    by (cases "group_step True x (sel, out)") (auto simp: ebind_def x)
  from group_step_cases [OF s1]
  consider "sel1 = sel" "out1 = out"
    | "ad \<noteq> PInf" "\<forall>i \<in> set fam. i < length sel \<and> \<not> sel ! i"
      "sel1 = fold (\<lambda>i s. s[i := True]) fam sel" "out1 = out @ [(fam, ad)]"
    by blast
  then show ?case
  proof cases
    case 1
    have srt: "sorted (map (\<lambda>g. dist_key (snd g)) (out @ xs))"
      using Cons.prems(6) by (simp add: sorted_append)
    from Cons.IH [OF rest [unfolded 1] Cons.prems(2-5) srt]
    show ?thesis by auto
  next
    case 2
    have len1: "length sel1 = n" using 2(3) Cons.prems(2) by (simp add: fold_set_True_length)
    have sel1: "\<forall>k < n. sel1 ! k \<longleftrightarrow> k \<in> (\<Union>g \<in> set out1. set (fst g))"
      using Cons.prems(2,3) 2(3,4) by (auto simp: fold_set_True_nth)
    have fam_free: "\<forall>g \<in> set out. set (fst g) \<inter> set fam = {}"
    proof
      fix g assume g: "g \<in> set out"
      show "set (fst g) \<inter> set fam = {}"
      proof (rule ccontr)
        assume "set (fst g) \<inter> set fam \<noteq> {}"
        then obtain k where k: "k \<in> set (fst g)" "k \<in> set fam" by auto
        with 2(2) Cons.prems(2) have "k < n" "\<not> sel ! k" by auto
        with Cons.prems(3) g k(1) show False by auto
      qed
    qed
    have dj1: "disjoint_groups out1"
      unfolding 2(4) using Cons.prems(4) fam_free by (intro disjoint_groups_snoc) simp_all
    have fin1: "\<forall>g \<in> set out1. snd g \<noteq> PInf \<and> set (fst g) \<subseteq> {0..<n}"
      using Cons.prems(5) 2(1,2,4) Cons.prems(2) by auto
    have srt1: "sorted (map (\<lambda>g. dist_key (snd g)) (out1 @ xs))"
      using Cons.prems(6) by (simp add: 2(4) x)
    from Cons.IH [OF rest len1 sel1 dj1 fin1 srt1]
    show ?thesis by (auto simp: 2(4) x)
  qed
qed

lemma finite_keys_sorted:
  assumes "\<forall>g \<in> set out. snd g \<noteq> PInf" and "sorted (map (\<lambda>g. dist_key (snd g)) out)"
  shows "\<exists>ds. map snd out = map Fin ds \<and> sorted ds"
  using assms
proof (induction out)
  case Nil
  then show ?case by simp
next
  case (Cons g out)
  then obtain ds where ds: "map snd out = map Fin ds" "sorted ds" by auto
  from Cons.prems(1) obtain d where d: "snd g = Fin d" by (cases "snd g") auto
  have "\<forall>y \<in> set ds. d \<le> y"
  proof
    fix y assume "y \<in> set ds"
    then have "Fin y \<in> set (map snd out)" by (simp add: ds(1))
    then obtain g' where g': "g' \<in> set out" "snd g' = Fin y" by auto
    with Cons.prems(2) have "dist_key (snd g) \<le> dist_key (snd g')" by auto
    then show "d \<le> y" by (simp add: d g'(2) dist_key_def less_eq_prod_def)
  qed
  with ds d have "map snd (g # out) = map Fin (d # ds) \<and> sorted (d # ds)" by simp
  then show ?case by blast
qed

lemma get_peaks_group_properties:
  assumes "get_peaks_group ana_res peaks True = Inr out"
  shows "out \<noteq> []
       \<and> snd (last out) = Fin (- 1)
       \<and> (\<Union>g \<in> set out. set (fst g)) = {0..<length peaks}
       \<and> (\<forall>i j. i < j \<and> j < length (butlast out) \<longrightarrow>
             set (fst (butlast out ! i)) \<inter> set (fst (butlast out ! j)) = {})
       \<and> set (fst (last out)) = {0..<length peaks} - (\<Union>g \<in> set (butlast out). set (fst g))
       \<and> set (butlast out) \<subseteq> (\<lambda>res. (peaks_family res, avg_dist res)) ` set ana_res
       \<and> (\<forall>g \<in> set (butlast out). snd g \<noteq> PInf)
       \<and> (\<exists>ds. map snd (butlast out) = map Fin ds \<and> sorted ds)"
proof -
  let ?n = "length peaks"
  let ?xs = "sort_key (\<lambda>x. dist_key (snd x)) (map (\<lambda>res. (peaks_family res, avg_dist res)) ana_res)"
  from assms obtain sel' out' where
    fold: "efold (group_step True) ?xs (replicate ?n False, []) = Inr (sel', out')"
    and out: "out = out' @ [(filter (\<lambda>i. \<not> sel' ! i) [0..<?n], Fin (- 1))]"
    unfolding get_peaks_group_def Let_def ebind_def
    by (auto split: sum.splits prod.splits)
  have "length sel' = ?n
       \<and> (\<forall>k < ?n. sel' ! k \<longleftrightarrow> k \<in> (\<Union>g \<in> set out'. set (fst g)))
       \<and> disjoint_groups out'
       \<and> (\<forall>g \<in> set out'. snd g \<noteq> PInf \<and> set (fst g) \<subseteq> {0..<?n})
       \<and> sorted (map (\<lambda>g. dist_key (snd g)) out')
       \<and> set out' \<subseteq> set [] \<union> set ?xs"
    by (rule group_fold_invariant [OF fold]) (simp_all add: disjoint_groups_def)
  then have sel: "\<forall>k < ?n. sel' ! k \<longleftrightarrow> k \<in> (\<Union>g \<in> set out'. set (fst g))"
    and dj: "disjoint_groups out'"
    and fin: "\<forall>g \<in> set out'. snd g \<noteq> PInf \<and> set (fst g) \<subseteq> {0..<?n}"
    and srt: "sorted (map (\<lambda>g. dist_key (snd g)) out')"
    and sub: "set out' \<subseteq> set ?xs"
    by simp_all
  have bl: "butlast out = out'" and la: "last out = (filter (\<lambda>i. \<not> sel' ! i) [0..<?n], Fin (- 1))"
    by (simp_all add: out)
  have left: "set (fst (last out)) = {0..<?n} - (\<Union>g \<in> set out'. set (fst g))"
    using sel by (auto simp: la)
  have un: "(\<Union>g \<in> set out. set (fst g)) = {0..<?n}"
  proof -
    have "(\<Union>g \<in> set out. set (fst g)) = (\<Union>g \<in> set out'. set (fst g)) \<union> set (fst (last out))"
      by (auto simp: out)
    also have "\<dots> = {0..<?n}" using left fin by auto
    finally show ?thesis .
  qed
  from finite_keys_sorted [of out'] fin srt
  have ds: "\<exists>ds. map snd out' = map Fin ds \<and> sorted ds" by blast
  show ?thesis
    unfolding bl
    using un left dj fin ds sub
    by (auto simp: out disjoint_groups_def)
qed

lemma group_step_total:
  assumes "\<forall>i \<in> set fam. i < length sel"
  shows "\<exists>sel' out'. group_step ex (fam, ad) (sel, out) = Inr (sel', out')
           \<and> length sel' = length sel"
proof -
  have t: "take_all sel fam = Inr (map ((!) sel) fam)"
    using assms by (rule take_all_total)
  have s: "set_all sel fam = Inr (fold (\<lambda>i s. s[i := True]) fam sel)"
    using assms by (auto simp: set_all_def)
  show ?thesis
    by (simp add: group_step_def ebind_def t s fold_set_True_length)
qed

lemma get_peaks_group_total:
  assumes "\<forall>res \<in> set ana_res. \<forall>i \<in> set (peaks_family res). i < length peaks"
  shows "\<exists>out. get_peaks_group ana_res peaks ex = Inr out"
proof -
  let ?xs = "sort_key (\<lambda>x. dist_key (snd x)) (map (\<lambda>res. (peaks_family res, avg_dist res)) ana_res)"
  let ?I = "\<lambda>a :: bool list \<times> (nat list \<times> xreal) list. length (fst a) = length peaks"
  have "\<exists>a'. efold (group_step ex) ?xs (replicate (length peaks) False, []) = Inr a' \<and> ?I a'"
  proof (rule efold_total [where I = ?I])
    show "?I (replicate (length peaks) False, [])" by simp
    fix x and a :: "bool list \<times> (nat list \<times> xreal) list"
    assume x: "x \<in> set ?xs" and a: "?I a"
    obtain fam ad where xe: "x = (fam, ad)" by (cases x)
    obtain sel out where ae: "a = (sel, out)" by (cases a)
    from x xe assms have "\<forall>i \<in> set fam. i < length peaks" by auto
    with a ae have "\<forall>i \<in> set fam. i < length sel" by simp
    from group_step_total [OF this, of ex ad out] a ae
    show "\<exists>a'. group_step ex x a = Inr a' \<and> ?I a'" by (auto simp: xe)
  qed
  then obtain sel' out' where
    "efold (group_step ex) ?xs (replicate (length peaks) False, []) = Inr (sel', out')" by auto
  then show ?thesis by (simp add: get_peaks_group_def ebind_def Let_def)
qed

text \<open>
  Claim C3.  Where every family holds indices of the peak list only, \<open>get_peaks_group\<close>
  returns.  With \<open>exclusive=True\<close>, what it returns ends with the leftover group, of
  sentinel spacing -1, which holds exactly the peaks no other group claims; the groups
  together cover the index set \<open>{0, ..., len(peaks) - 1}\<close>; the groups before the leftover
  are pairwise disjoint, are families of the input, have finite spacing, and come in
  ascending order of spacing.
\<close>

theorem get_peaks_group_partition:
  "((\<forall>res \<in> set ana_res. \<forall>i \<in> set (peaks_family res). i < length peaks) \<longrightarrow>
      (\<exists>out. get_peaks_group ana_res peaks True = Inr out))
   \<and> (get_peaks_group ana_res peaks True = Inr out \<longrightarrow>
        out \<noteq> []
      \<and> snd (last out) = Fin (- 1)
      \<and> (\<Union>g \<in> set out. set (fst g)) = {0..<length peaks}
      \<and> (\<forall>i j. i < j \<and> j < length (butlast out) \<longrightarrow>
            set (fst (butlast out ! i)) \<inter> set (fst (butlast out ! j)) = {})
      \<and> set (fst (last out)) = {0..<length peaks} - (\<Union>g \<in> set (butlast out). set (fst g))
      \<and> set (butlast out) \<subseteq> (\<lambda>res. (peaks_family res, avg_dist res)) ` set ana_res
      \<and> (\<forall>g \<in> set (butlast out). snd g \<noteq> PInf)
      \<and> (\<exists>ds. map snd (butlast out) = map Fin ds \<and> sorted ds))"
  using get_peaks_group_total [of ana_res peaks True]
    get_peaks_group_properties [of ana_res peaks out]
  by blast

lemma resolver_example:
  "get_peaks_group
     [\<lparr>peaks_family = [3, 4], avg_dist = Fin 60, avg_err = 0\<rparr>,
      \<lparr>peaks_family = [1, 3, 4], avg_dist = Fin 20, avg_err = 0\<rparr>,
      \<lparr>peaks_family = [0, 2], avg_dist = Fin 30, avg_err = 0\<rparr>,
      \<lparr>peaks_family = [2], avg_dist = PInf, avg_err = 0\<rparr>]
     [10, 20, 30, 40, 100] True
   = Inr [([1, 3, 4], Fin 20), ([0, 2], Fin 30), ([], Fin (- 1))]"
  by code_simp

theorem get_peaks_group_partition_witness:
  "get_peaks_group
     [\<lparr>peaks_family = [3, 4], avg_dist = Fin 60, avg_err = 0\<rparr>,
      \<lparr>peaks_family = [1, 3, 4], avg_dist = Fin 20, avg_err = 0\<rparr>,
      \<lparr>peaks_family = [0, 2], avg_dist = Fin 30, avg_err = 0\<rparr>,
      \<lparr>peaks_family = [2], avg_dist = PInf, avg_err = 0\<rparr>]
     [10, 20, 30, 40, 100] True
   = Inr [([1, 3, 4], Fin 20), ([0, 2], Fin 30), ([], Fin (- 1))]
   \<and> (\<Union>g \<in> set [([1, 3, 4], Fin 20), ([0, 2], Fin 30), ([], Fin (- 1))]. set (fst g))
       = {0..<length [10, 20, 30, 40, 100 :: nat]}
   \<and> (\<exists>ds. map snd (butlast [([1, 3, 4 :: nat], Fin 20), ([0, 2], Fin 30), ([], Fin (- 1))])
            = map Fin ds \<and> sorted ds)"
proof -
  note t = get_peaks_group_partition
      [where ana_res = "[\<lparr>peaks_family = [3, 4], avg_dist = Fin 60, avg_err = 0\<rparr>,
          \<lparr>peaks_family = [1, 3, 4], avg_dist = Fin 20, avg_err = 0\<rparr>,
          \<lparr>peaks_family = [0, 2], avg_dist = Fin 30, avg_err = 0\<rparr>,
          \<lparr>peaks_family = [2], avg_dist = PInf, avg_err = 0\<rparr>]"
        and peaks = "[10, 20, 30, 40, 100]"
        and out = "[([1, 3, 4], Fin 20), ([0, 2], Fin 30), ([], Fin (- 1))]"]
  have "\<forall>res \<in> set [\<lparr>peaks_family = [3, 4], avg_dist = Fin 60, avg_err = 0\<rparr>,
          \<lparr>peaks_family = [1, 3, 4], avg_dist = Fin 20, avg_err = 0\<rparr>,
          \<lparr>peaks_family = [0, 2], avg_dist = Fin 30, avg_err = 0\<rparr>,
          \<lparr>peaks_family = [2], avg_dist = PInf, avg_err = 0\<rparr>].
          \<forall>i \<in> set (peaks_family res). i < length [10, 20, 30, 40, 100 :: nat]" by simp
  with t have "\<exists>out. get_peaks_group
          [\<lparr>peaks_family = [3, 4], avg_dist = Fin 60, avg_err = 0\<rparr>,
          \<lparr>peaks_family = [1, 3, 4], avg_dist = Fin 20, avg_err = 0\<rparr>,
          \<lparr>peaks_family = [0, 2], avg_dist = Fin 30, avg_err = 0\<rparr>,
          \<lparr>peaks_family = [2], avg_dist = PInf, avg_err = 0\<rparr>]
          [10, 20, 30, 40, 100] True = Inr out" by blast
  from t resolver_example
  have p: "(\<Union>g \<in> set [([1, 3, 4], Fin 20), ([0, 2], Fin 30), ([], Fin (- 1))]. set (fst g))
       = {0..<length [10, 20, 30, 40, 100 :: nat]}
    \<and> (\<exists>ds. map snd (butlast [([1, 3, 4 :: nat], Fin 20), ([0, 2], Fin 30), ([], Fin (- 1))])
            = map Fin ds \<and> sorted ds)" by blast
  from p have "(\<Union>g \<in> set [([1, 3, 4], Fin 20), ([0, 2], Fin 30), ([], Fin (- 1))]. set (fst g))
       = {0..<length [10, 20, 30, 40, 100 :: nat]}" by (elim conjE)
  moreover from p have "\<exists>ds. map snd (butlast [([1, 3, 4 :: nat], Fin 20), ([0, 2], Fin 30), ([], Fin (- 1))])
            = map Fin ds \<and> sorted ds" by (elim conjE)
  ultimately show ?thesis using resolver_example by (intro conjI)
qed

section \<open>Properties of the Cross-Pattern Distance Clusterer\<close>

text \<open>
  Without an outlier the relabelling does what it is meant to do: on the periodicities of
  the specification's scenario, clustered as \<open>{50, 50.2}\<close>, \<open>{25, 25.1}\<close>, \<open>{10}\<close>, the
  cluster of the smallest mean gets label 0 and the table holds one mean per label.
\<close>

lemma fit_predict_example:
  "fit_predict (\<lambda>dists. [0, 0, 1, 1, 2]) [50, 251 / 5, 25, 251 / 10, 10]
     = Inr \<lparr>labels = [2, 2, 1, 1, 0], mean_dists = [10, 501 / 20, 501 / 10]\<rparr>"
  by code_simp

text \<open>
  Claim C2 fails where the clustering reports an outlier.  For the periodicities 1, 5 and
  5.1 with the labels -1, 0, 0 (what a density clustering with \<open>eps=1\<close>, \<open>min_samples=2\<close>
  gives), \<open>_mean_dist\<close> appends the sentinel -1 and then also the mean of the outliers, so
  the table has three entries for two labels; the relabelling then gives the dense
  cluster, of mean 5.05, the label 0 (whose table entry is the sentinel) and the outlier,
  of value 1, the larger label 2.
\<close>

theorem fit_predict_outlier:
  "fit_predict (\<lambda>dists. [- 1, 0, 0]) [1, 5, 51 / 10]
     = Inr \<lparr>labels = [2, 0, 0], mean_dists = [- 1, 1, 101 / 20]\<rparr>"
  by code_simp

section \<open>Properties of the Group Intensity Attributor\<close>

subsection \<open>Centre peaks\<close>

lemma efold_skip:
  assumes "\<And>x s. \<not> P x \<Longrightarrow> f x s = Inr s"
  shows "efold f xs s = efold f (filter P xs) s"
proof (induction xs arbitrary: s)
  case Nil
  show ?case by simp
next
  case (Cons x xs)
  show ?case
  proof (cases "P x")
    case True
    then show ?thesis by (cases "f x s") (simp_all add: ebind_def Cons.IH)
  next
    case False
    then show ?thesis by (simp add: assms ebind_def Cons.IH)
  qed
qed

lemma emap_nth_e_map:
  "emap (nth_e (map g xs)) is
     = (case emap (nth_e xs) is of Inl e \<Rightarrow> Inl e | Inr ys \<Rightarrow> Inr (map g ys))"
  by (induction "is") (auto simp: ebind_def nth_e_def split: sum.splits)

lemma register_peak_center:
  "p \<in> set (collapses_peaks_flatten_cis st) \<Longrightarrow> register_peak cf st p acc = Inr acc"
  by (cases acc) (simp add: register_peak_def)

lemma fit_region_ana_res:
  "fit_region cf (st\<lparr>collapses_peaks_flatten_ana_res := a\<rparr>) = fit_region cf st"
  by (intro ext) (simp add: fit_region_def cong del: option.case_cong_weak)

lemma register_peak_ana_res:
  "register_peak cf (st\<lparr>collapses_peaks_flatten_ana_res := a\<rparr>) = register_peak cf st"
  by (intro ext)
     (simp add: register_peak_def fit_region_ana_res cong del: prod.case_cong_weak if_weak_cong)

lemma concat_filter_families:
  "concat (map peaks_family (map (\<lambda>res. res\<lparr>peaks_family := filter P (peaks_family res)\<rparr>) sel))
     = filter P (concat (map peaks_family sel))"
  by (induction sel) simp_all

lemma get_center_peak_idxs_iff:
  "p \<in> set (get_center_peak_idxs peaks mid tol) \<longleftrightarrow> p < length peaks \<and> \<bar>peaks ! p - mid\<bar> < tol"
  by (auto simp: get_center_peak_idxs_def)

lemma rheed_analyze_cis:
  assumes "rheed_analyze_peaks_distance_cent st0 tolerant abs_tolerant allow = Inr st"
  shows "collapses_peaks_flatten_cis st
           = get_center_peak_idxs (collapses_peaks_ws_flatten st)
               (real (a_cols (pattern st) div 2)) abs_tolerant"
  using assms
  unfolding rheed_analyze_peaks_distance_cent_def flatten_peaks_def ebind_def Let_def
  by (auto split: sum.splits)

text \<open>
  Claim C10.  The indices recorded in \<open>collapses_peaks_flatten_cis\<close> by the periodicity
  analysis are those of the flattened peaks whose position is less than \<open>abs_tolerant\<close>
  away from the horizontal midpoint of the pattern; and \<open>get_group_intensity\<close> skips every
  such peak: its result (intensities, relative intensities, warnings, or the exception)
  is the one it gives when these peaks are removed from every family.
\<close>

theorem center_peaks_skipped:
  "(rheed_analyze_peaks_distance_cent st0 tolerant abs_tolerant allow = Inr st \<longrightarrow>
      (p \<in> set (collapses_peaks_flatten_cis st) \<longleftrightarrow>
         p < length (collapses_peaks_ws_flatten st)
         \<and> \<bar>collapses_peaks_ws_flatten st ! p - real (a_cols (pattern st) div 2)\<bar> < abs_tolerant))
   \<and> get_group_intensity cf s
       = get_group_intensity cf
           (s\<lparr>collapses_peaks_flatten_ana_res :=
                map (\<lambda>res. res\<lparr>peaks_family :=
                                 filter (\<lambda>p. p \<notin> set (collapses_peaks_flatten_cis s))
                                   (peaks_family res)\<rparr>)
                  (collapses_peaks_flatten_ana_res s)\<rparr>)"
proof
  show "rheed_analyze_peaks_distance_cent st0 tolerant abs_tolerant allow = Inr st \<longrightarrow>
      (p \<in> set (collapses_peaks_flatten_cis st) \<longleftrightarrow>
         p < length (collapses_peaks_ws_flatten st)
         \<and> \<bar>collapses_peaks_ws_flatten st ! p - real (a_cols (pattern st) div 2)\<bar> < abs_tolerant)"
    by (auto simp: rheed_analyze_cis get_center_peak_idxs_iff)
  let ?P = "\<lambda>p. p \<notin> set (collapses_peaks_flatten_cis s)"
  let ?g = "\<lambda>res. res\<lparr>peaks_family := filter ?P (peaks_family res)\<rparr>"
  let ?s' = "s\<lparr>collapses_peaks_flatten_ana_res := map ?g (collapses_peaks_flatten_ana_res s)\<rparr>"
  have sel: "selected_families ?s' ul
           = (case selected_families s ul of Inl e \<Rightarrow> Inl e | Inr ys \<Rightarrow> Inr (map ?g ys))" for ul
    by (simp add: selected_families_def emap_nth_e_map)
  have skip: "efold (register_peak cf s) ps acc = efold (register_peak cf s) (filter ?P ps) acc"
    for ps acc
    by (rule efold_skip) (simp add: register_peak_center)
  have step: "label_step cf ?s' ul acc = label_step cf s ul acc" for ul acc
  proof (cases "selected_families s ul")
    case (Inl e)
    then show ?thesis by (cases acc) (simp add: label_step_def sel ebind_def)
  next
    case (Inr ys)
    have fams: "concat (map peaks_family (map ?g ys)) = filter ?P (concat (map peaks_family ys))"
      by (rule concat_filter_families)
    have e: "efold (register_peak cf s) (concat (map peaks_family (map ?g ys))) a
               = efold (register_peak cf s) (concat (map peaks_family ys)) a" for a
      unfolding fams by (rule skip [symmetric])
    show ?thesis
      by (cases acc)
         (simp add: label_step_def sel Inr ebind_def register_peak_ana_res e del: map_map)
  qed
  then have "label_step cf ?s' = label_step cf s" by (intro ext)
  then show "get_group_intensity cf s = get_group_intensity cf ?s'"
    by (simp add: get_group_intensity_def)
qed

lemma example_analysis:
  "rheed_analyze_peaks_distance_cent example_mask (1 / 100) 1 1
     = Inr (example_mask\<lparr>collapses_peaks_flatten_ana_res :=
              [\<lparr>peaks_family = [0, 1, 2], avg_dist = Fin 3, avg_err = 0\<rparr>]\<rparr>)"
  by code_simp

theorem center_peaks_skipped_witness:
  "rheed_analyze_peaks_distance_cent example_mask (1 / 100) 1 1
     = Inr (example_mask\<lparr>collapses_peaks_flatten_ana_res :=
              [\<lparr>peaks_family = [0, 1, 2], avg_dist = Fin 3, avg_err = 0\<rparr>]\<rparr>)
   \<and> 1 \<in> set (collapses_peaks_flatten_cis example_mask)
   \<and> get_group_intensity (\<lambda>xs ys guess. Inl FitError) example_mask
       = get_group_intensity (\<lambda>xs ys guess. Inl FitError)
           (example_mask\<lparr>collapses_peaks_flatten_ana_res :=
              [\<lparr>peaks_family = [0, 2], avg_dist = Fin 3, avg_err = 0\<rparr>,
               \<lparr>peaks_family = [2], avg_dist = Fin 3, avg_err = 0\<rparr>]\<rparr>)"
proof -
  note t = center_peaks_skipped [of example_mask "1 / 100" 1 1
      "example_mask\<lparr>collapses_peaks_flatten_ana_res :=
              [\<lparr>peaks_family = [0, 1, 2], avg_dist = Fin 3, avg_err = 0\<rparr>]\<rparr>" 1
      "\<lambda>xs ys guess. Inl FitError" example_mask]
  have c: "1 \<in> set (collapses_peaks_flatten_cis example_mask)"
    using t example_analysis by (simp add: example_mask_def)
  have f: "map (\<lambda>res. res\<lparr>peaks_family :=
                  filter (\<lambda>p. p \<notin> set (collapses_peaks_flatten_cis example_mask))
                    (peaks_family res)\<rparr>)
             (collapses_peaks_flatten_ana_res example_mask)
           = [\<lparr>peaks_family = [0, 2], avg_dist = Fin 3, avg_err = 0\<rparr>,
               \<lparr>peaks_family = [2], avg_dist = Fin 3, avg_err = 0\<rparr>]"
    by (simp add: example_mask_def)
  from t have "get_group_intensity (\<lambda>xs ys guess. Inl FitError) example_mask
       = get_group_intensity (\<lambda>xs ys guess. Inl FitError)
           (example_mask\<lparr>collapses_peaks_flatten_ana_res :=
              map (\<lambda>res. res\<lparr>peaks_family :=
                  filter (\<lambda>p. p \<notin> set (collapses_peaks_flatten_cis example_mask))
                    (peaks_family res)\<rparr>)
             (collapses_peaks_flatten_ana_res example_mask)\<rparr>)" by (elim conjE)
  then show ?thesis unfolding f using c example_analysis by (intro conjI)
qed

subsection \<open>A failed fit behaves as a fit that returns the initial guess\<close>







subsection \<open>No exception on a well-formed pattern\<close>





















subsection \<open>A failed fit is warned about exactly once\<close>












lemma example_fit_returns:
  "(\<lambda>xs ys guess. if guess = [6, 4, 3 / 4, 8, 7, 3 / 4, 0 :: real] then Inl FitError
                    else Inr guess)
     [4, 5, 6, 7 :: real] [6, 2, 2, 8 :: real] [6, 4, 1, 8, 7, 1, 0] = Inr [6, 4, 1, 8, 7, 1, 0]"
  by simp



text \<open>
  A fit whose parameters put the second peak of region 1 left of the pattern: the
  composition of the masks raises, which is warned about for each of the two labels; the
  region with one peak still contributes to the first label.
\<close>

lemma example_mask_failure:
  "get_group_intensity (\<lambda>xs ys guess. Inr [6, 4, - 100, 8, - 3, 3 / 2, 0]) example_mask
     = Inr ([8, 0], [Some 1, Some 0], [RegisterFail 1, RegisterFail 1])"
  by code_simp




end
